theory Spec2Isabelle
  imports Main "HOL-Library.AList"
begin

section \<open>Statistics jobs of core/domain/stats\_jobs\_continuous.py\<close>

text \<open>
  A shallow embedding of the continuous statistics computations: the realtime
  layer fed by \<open>StatisticsAggregator._handle_incoming_event\<close>, the query methods
  \<open>get_statistics\<close> and \<open>get_views_multi\<close>, the map and reduce functions of
  \<open>StatisticsMRJobManager\<close> and the reduce function of
  \<open>InteractionAnswerSummariesMRJobManager\<close>.

  Conventions. Python integers are \<open>int\<close>. Byte and unicode strings are both
  \<open>string\<close>, so the utf-8 decoding of state names in the reduce function is the
  identity. A value that may be \<open>None\<close> is an \<open>option\<close>. Datetimes and the result
  of \<open>utils.get_time_in_millisecs\<close> are integer milliseconds since the epoch, so
  that function is the identity and is not written. Datastore kinds are maps
  from entity ids to entities, passed in and returned. Exceptions are values of
  type \<open>error\<close>. The mapreduce framework stringifies every mapped value and the
  reduce functions read it back with \<open>ast.literal_eval\<close>; the model hands the
  values over as they were emitted.
\<close>

subsection \<open>Constants\<close>

definition VERSION_ALL :: string where
  "VERSION_ALL = ''all''"

definition VERSION_NONE :: string where
  "VERSION_NONE = ''none''"

text \<open>\<open>_STATE_COUNTER_CUTOFF_DATE = datetime.datetime(2014, 10, 11, 0, 0, 0)\<close>.\<close>

definition STATE_COUNTER_CUTOFF_DATE :: int where
  "STATE_COUNTER_CUTOFF_DATE = 1412985600000"

definition OLD_END_DEST :: string where
  "OLD_END_DEST = ''END''"

definition TYPE_STATE_COUNTER_STRING :: string where
  "TYPE_STATE_COUNTER_STRING = ''counter''"

definition TYPE_EVENT_STRING :: string where
  "TYPE_EVENT_STRING = ''event''"

text \<open>
  Modelled from the spec: the event type constants of \<open>feconf\<close>, a module that is
  not part of the sources at hand. The spec names the kinds \<open>start\<close>,
  \<open>maybe_leave\<close>, \<open>complete\<close> and \<open>state_hit\<close>.
\<close>

definition EVENT_TYPE_START_EXPLORATION :: string where
  "EVENT_TYPE_START_EXPLORATION = ''start''"

definition EVENT_TYPE_MAYBE_LEAVE_EXPLORATION :: string where
  "EVENT_TYPE_MAYBE_LEAVE_EXPLORATION = ''maybe_leave''"

definition EVENT_TYPE_COMPLETE_EXPLORATION :: string where
  "EVENT_TYPE_COMPLETE_EXPLORATION = ''complete''"

definition EVENT_TYPE_STATE_HIT :: string where
  "EVENT_TYPE_STATE_HIT = ''state_hit''"

datatype error = ValueError | IndexError | RegistryError | CalculationError

subsection \<open>Datastore entities\<close>

text \<open>
  \<open>StatisticsRealtimeModel\<close>: \<open>num_starts\<close> and \<open>num_completions\<close> default to 0;
  \<open>realtime_layer\<close> comes from the base class.
\<close>

record StatisticsRealtimeModel =
  realtime_layer :: int
  rt_num_starts :: int
  rt_num_completions :: int

text \<open>
  The inner dictionary of \<open>state_hit_counts\<close> maps the keys
  \<open>'total_entry_count'\<close>, \<open>'first_entry_count'\<close> and \<open>'no_answer_count'\<close> to
  integers; the outer one maps state names (possibly \<open>None\<close>) to buckets.
\<close>

type_synonym bucket = "string \<rightharpoonup> int"

type_synonym hit_counts = "string option \<rightharpoonup> bucket"

text \<open>
  \<open>ExplorationAnnotationsModel\<close>, the entity written by the batch job. The class
  is declared in the storage layer, which is not part of the sources at hand;
  the fields are the arguments of \<open>create\<close> and the attributes that
  \<open>get_statistics\<close> reads.
\<close>

record ExplorationAnnotationsModel =
  mr_exploration_id :: string
  mr_version :: string
  mr_num_starts :: int
  mr_num_completions :: int
  mr_state_hit_counts :: hit_counts
  mr_last_updated :: int

type_synonym realtime_store = "(int \<times> string) \<rightharpoonup> StatisticsRealtimeModel"

type_synonym annotations_store = "(string \<times> string) \<rightharpoonup> ExplorationAnnotationsModel"

text \<open>
  Modelled from the spec: \<open>get_realtime_id\<close> of the realtime base class, which
  is not part of the sources at hand. The spec keys a live counter by the
  exploration id and the active generation.
\<close>

definition get_realtime_id :: "int \<Rightarrow> string \<Rightarrow> int \<times> string" where
  "get_realtime_id layer_index raw_entity_id = (layer_index, raw_entity_id)"

text \<open>
  Modelled from the spec: \<open>ExplorationAnnotationsModel.get_entity_id\<close>, not part
  of the sources at hand. The spec has one canonical snapshot per exploration
  and version scope.
\<close>

definition get_entity_id :: "string \<Rightarrow> string \<Rightarrow> string \<times> string" where
  "get_entity_id exploration_id exploration_version = (exploration_id, exploration_version)"

text \<open>
  Modelled from the spec: the batched read \<open>get_multi\<close> of the durable store,
  not part of the sources at hand. It returns one entry per requested key, in
  order, with \<open>None\<close> for an absent entity.
\<close>

definition get_multi :: "('k \<rightharpoonup> 'v) \<Rightarrow> 'k list \<Rightarrow> 'v option list" where
  "get_multi store ids = map store ids"

text \<open>
  Modelled from the spec: \<open>get_active_realtime_layer_id\<close> and
  \<open>get_multi_active_realtime_layer_ids\<close> of the continuous computation base
  class, not part of the sources at hand. The active generation is passed in.
\<close>

definition get_active_realtime_layer_id :: "int \<Rightarrow> string \<Rightarrow> int \<times> string" where
  "get_active_realtime_layer_id active_layer entity_id = get_realtime_id active_layer entity_id"

definition get_multi_active_realtime_layer_ids :: "int \<Rightarrow> string list \<Rightarrow> (int \<times> string) list" where
  "get_multi_active_realtime_layer_ids active_layer entity_ids =
     map (get_realtime_id active_layer) entity_ids"

subsection \<open>StatisticsAggregator\<close>

text \<open>
  The two closures of \<open>_handle_incoming_event\<close>. Each runs inside
  \<open>run_in_transaction\<close>, which the sequential model renders as a plain call.
\<close>

definition increment_visit_counter :: "realtime_store \<Rightarrow> int \<Rightarrow> string \<Rightarrow> realtime_store" where
  "increment_visit_counter rs active_realtime_layer exp_id =
     (let realtime_model_id = get_realtime_id active_realtime_layer exp_id in
      case rs realtime_model_id of
        None \<Rightarrow>
          rs(realtime_model_id \<mapsto>
            \<lparr>realtime_layer = active_realtime_layer, rt_num_starts = 1, rt_num_completions = 0\<rparr>)
      | Some model \<Rightarrow>
          rs(realtime_model_id \<mapsto> model\<lparr>rt_num_starts := rt_num_starts model + 1\<rparr>))"

definition increment_completion_counter :: "realtime_store \<Rightarrow> int \<Rightarrow> string \<Rightarrow> realtime_store" where
  "increment_completion_counter rs active_realtime_layer exp_id =
     (let realtime_model_id = get_realtime_id active_realtime_layer exp_id in
      case rs realtime_model_id of
        None \<Rightarrow>
          rs(realtime_model_id \<mapsto>
            \<lparr>realtime_layer = active_realtime_layer, rt_num_starts = 0, rt_num_completions = 1\<rparr>)
      | Some model \<Rightarrow>
          rs(realtime_model_id \<mapsto> model\<lparr>rt_num_completions := rt_num_completions model + 1\<rparr>))"

text \<open>\<open>exp_id = args[0]\<close> raises \<open>IndexError\<close> on an empty argument list.\<close>

definition handle_incoming_event ::
  "realtime_store \<Rightarrow> int \<Rightarrow> string \<Rightarrow> string list \<Rightarrow> error + realtime_store" where
  "handle_incoming_event rs active_realtime_layer event_type args =
     (case args of
        [] \<Rightarrow> Inl IndexError
      | exp_id # _ \<Rightarrow>
          if event_type = EVENT_TYPE_START_EXPLORATION
          then Inr (increment_visit_counter rs active_realtime_layer exp_id)
          else Inr (increment_completion_counter rs active_realtime_layer exp_id))"

text \<open>The dictionary returned by \<open>get_statistics\<close>.\<close>

record statistics =
  start_exploration_count :: int
  complete_exploration_count :: int
  stats_state_hit_counts :: hit_counts
  stats_last_updated :: "int option"

definition get_statistics ::
  "annotations_store \<Rightarrow> realtime_store \<Rightarrow> int \<Rightarrow> string \<Rightarrow> string \<Rightarrow> statistics" where
  "get_statistics ms rs active_layer exploration_id exploration_version =
     (let s0 = \<lparr>start_exploration_count = 0, complete_exploration_count = 0,
                stats_state_hit_counts = Map.empty, stats_last_updated = None\<rparr>;
          entity_id = get_entity_id exploration_id exploration_version;
          s1 = (case ms entity_id of
                  None \<Rightarrow> s0
                | Some mr_model \<Rightarrow>
                    \<lparr>start_exploration_count = start_exploration_count s0 + mr_num_starts mr_model,
                     complete_exploration_count =
                       complete_exploration_count s0 + mr_num_completions mr_model,
                     stats_state_hit_counts = mr_state_hit_counts mr_model,
                     stats_last_updated = Some (mr_last_updated mr_model)\<rparr>)
      in case rs (get_active_realtime_layer_id active_layer exploration_id) of
           None \<Rightarrow> s1
         | Some realtime_model \<Rightarrow>
             s1\<lparr>start_exploration_count :=
                   start_exploration_count s1 + rt_num_starts realtime_model,
                 complete_exploration_count :=
                   complete_exploration_count s1 + rt_num_completions realtime_model\<rparr>)"

definition get_views_multi ::
  "annotations_store \<Rightarrow> realtime_store \<Rightarrow> int \<Rightarrow> string list \<Rightarrow> int list" where
  "get_views_multi ms rs active_layer exploration_ids =
     (let entity_ids = map (\<lambda>exploration_id. get_entity_id exploration_id VERSION_ALL)
                         exploration_ids;
          mr_models = get_multi ms entity_ids;
          realtime_model_ids = get_multi_active_realtime_layer_ids active_layer exploration_ids;
          realtime_models = get_multi rs realtime_model_ids
      in map (\<lambda>i. (case mr_models ! i of None \<Rightarrow> 0 | Some m \<Rightarrow> mr_num_starts m)
                 + (case realtime_models ! i of None \<Rightarrow> 0 | Some r \<Rightarrow> rt_num_starts r))
           [0..<length exploration_ids])"

subsection \<open>Python helpers\<close>

text \<open>\<open>s.find(c)\<close>: the index of the first occurrence, or \<open>-1\<close>.\<close>

fun find_char :: "char \<Rightarrow> string \<Rightarrow> int" where
  "find_char c [] = - 1"
| "find_char c (x # xs) =
     (if x = c then 0 else (let r = find_char c xs in if r < 0 then - 1 else r + 1))"

text \<open>\<open>s[:i]\<close> and \<open>s[i:]\<close>: a negative index counts from the end and is clamped.\<close>

definition slice_to :: "'a list \<Rightarrow> int \<Rightarrow> 'a list" where
  "slice_to xs i = (if i < 0 then take (nat (int (length xs) + i)) xs else take (nat i) xs)"

definition slice_from :: "'a list \<Rightarrow> int \<Rightarrow> 'a list" where
  "slice_from xs i = (if i < 0 then drop (nat (int (length xs) + i)) xs else drop (nat i) xs)"

text \<open>\<open>s.split(c)\<close> for a one-character separator.\<close>

fun str_split :: "char \<Rightarrow> string \<Rightarrow> string list" where
  "str_split c [] = [[]]"
| "str_split c (x # xs) =
     (if x = c then [] # str_split c xs
      else (case str_split c xs of [] \<Rightarrow> [[x]] | w # ws \<Rightarrow> (x # w) # ws))"

text \<open>\<open>str(n)\<close> for an integer: its decimal digits, with a sign when negative.\<close>

definition digit_char :: "nat \<Rightarrow> char" where
  "digit_char d = ''0123456789'' ! d"

function str_nat :: "nat \<Rightarrow> string" where
  "str_nat n = (if n < 10 then [digit_char n] else str_nat (n div 10) @ [digit_char (n mod 10)])"
  by pat_completeness auto
termination
  by (relation "measure (\<lambda>n. n)") auto

definition str_int :: "int \<Rightarrow> string" where
  "str_int i = (if i < 0 then CHR ''-'' # str_nat (nat (- i)) else str_nat (nat i))"

subsection \<open>StatisticsMRJobManager.map\<close>

text \<open>
  The entities mapped over. A \<open>StateCounterModel\<close> carries its id
  (\<open>exploration_id.state_name\<close>), \<open>first_entry_count\<close>,
  \<open>subsequent_entries_count\<close>, \<open>resolved_answer_count\<close>, \<open>active_answer_count\<close>
  and \<open>created_on\<close>. The four event log entry models share the attributes
  \<open>event_type\<close>, \<open>session_id\<close>, \<open>state_name\<close>, \<open>created_on\<close>,
  \<open>exploration_id\<close> and \<open>exploration_version\<close>, in this order.
\<close>

datatype item =
    StateCounterModel string int int int int int
  | EventLogEntryModel string string "string option" int string "int option"

text \<open>
  The dictionaries yielded by the map function. A \<open>Counter\<close> has
  \<open>'type': 'counter'\<close> and the values of \<open>exploration_id\<close>, \<open>version\<close>,
  \<open>state_name\<close>, \<open>first_entry_count\<close>, \<open>subsequent_entries_count\<close>,
  \<open>resolved_answer_count\<close> and \<open>active_answer_count\<close>. An \<open>Event\<close> has
  \<open>'type': 'event'\<close> and the values of \<open>event_type\<close>, \<open>session_id\<close>,
  \<open>state_name\<close>, \<open>created_on\<close>, \<open>exploration_id\<close> and \<open>version\<close>.
\<close>

datatype mapped_value =
    Counter string string "string option" int int int int
  | Event string string "string option" int string string

fun value_type :: "mapped_value \<Rightarrow> string" where
  "value_type (Counter _ _ _ _ _ _ _) = TYPE_STATE_COUNTER_STRING"
| "value_type (Event _ _ _ _ _ _) = TYPE_EVENT_STRING"

fun item_created_on :: "item \<Rightarrow> int" where
  "item_created_on (StateCounterModel _ _ _ _ _ created_on) = created_on"
| "item_created_on (EventLogEntryModel _ _ _ created_on _ _) = created_on"

text \<open>
  Modelled from the spec: \<open>_entity_created_before_job_queued\<close>, inherited from
  the job base class, which is not part of the sources at hand. The spec lets
  the job see every entity that existed before the cutoff captured when the job
  was started.
\<close>

definition entity_created_before_job_queued :: "int \<Rightarrow> item \<Rightarrow> bool" where
  "entity_created_before_job_queued job_queued entity = (item_created_on entity < job_queued)"

text \<open>The generator's yields, in order, as a list.\<close>

fun StatisticsMRJobManager_map :: "int \<Rightarrow> item \<Rightarrow> (string \<times> mapped_value) list" where
  "StatisticsMRJobManager_map job_queued
       (StateCounterModel ident first_entry_count subsequent_entries_count
          resolved_answer_count active_answer_count created_on) =
     (if entity_created_before_job_queued job_queued
           (StateCounterModel ident first_entry_count subsequent_entries_count
              resolved_answer_count active_answer_count created_on)
      then
        (let first_dot_index = find_char (CHR ''.'') ident;
             exploration_id = slice_to ident first_dot_index;
             state_name = slice_from ident (first_dot_index + 1);
             val = Counter exploration_id VERSION_NONE (Some state_name) first_entry_count
                     subsequent_entries_count resolved_answer_count active_answer_count
         in [(exploration_id @ '':'' @ VERSION_NONE, val),
             (exploration_id @ '':'' @ VERSION_ALL, val)])
      else [])"
| "StatisticsMRJobManager_map job_queued
       (EventLogEntryModel event_type session_id state_name created_on exploration_id
          exploration_version) =
     (if entity_created_before_job_queued job_queued
           (EventLogEntryModel event_type session_id state_name created_on exploration_id
              exploration_version)
      then
        (let version = (case exploration_version of
                          None \<Rightarrow> VERSION_NONE
                        | Some n \<Rightarrow> str_int n);
             val = Event event_type session_id state_name created_on exploration_id version
         in [(exploration_id @ '':'' @ version, val),
             (exploration_id @ '':'' @ VERSION_ALL, val)])
      else [])"

subsection \<open>StatisticsMRJobManager.reduce: resolving the exploration\<close>

text \<open>
  What the reduce function reads of an exploration: the keys of its \<open>states\<close>
  dictionary, \<open>init_state_name\<close>, \<open>version\<close> and \<open>last_updated\<close>.
\<close>

record exploration =
  states :: "string list"
  init_state_name :: string
  exp_version :: int
  exp_last_updated :: int

text \<open>
  The exploration services are not part of the sources at hand and are taken
  as parameters: \<open>exp_services.get_exploration_by_id(exp_id, version=None)\<close> and
  \<open>exp_models.ExplorationModel.get_version(exp_id, version)\<close>. The result \<open>None\<close>
  stands for \<open>EntityNotFoundError\<close>, the one exception the reduce function
  catches.
\<close>

record services =
  get_exploration_by_id :: "string \<Rightarrow> string option \<Rightarrow> exploration option"
  get_version :: "string \<Rightarrow> int \<Rightarrow> exploration option"

text \<open>
  The while loop that rewinds to the last commit before the transition from
  \<open>StateCounterModel\<close>.
\<close>

function rewind :: "services \<Rightarrow> string \<Rightarrow> exploration \<Rightarrow> int \<Rightarrow> exploration option" where
  "rewind svc exp_id exploration current_version =
     (if exp_last_updated exploration > STATE_COUNTER_CUTOFF_DATE \<and> current_version > 1
      then (case get_version svc exp_id (current_version - 1) of
              None \<Rightarrow> None
            | Some exploration' \<Rightarrow> rewind svc exp_id exploration' (current_version - 1))
      else Some exploration)"
  by pat_completeness auto
termination
  by (relation "measure (\<lambda>(svc, exp_id, exploration, current_version). nat current_version)") auto

text \<open>The body of the try statement; \<open>None\<close> is the except branch.\<close>

definition resolve_exploration :: "services \<Rightarrow> string \<Rightarrow> string \<Rightarrow> exploration option" where
  "resolve_exploration svc exp_id version =
     (if version = VERSION_NONE then
        (case get_exploration_by_id svc exp_id None of
           None \<Rightarrow> None
         | Some exploration \<Rightarrow> rewind svc exp_id exploration (exp_version exploration))
      else if version = VERSION_ALL then get_exploration_by_id svc exp_id None
      else get_exploration_by_id svc exp_id (Some version))"

subsection \<open>StatisticsMRJobManager.reduce: the accumulation\<close>

text \<open>
  The local variables of the reduce function. \<open>state_hit_counts\<close> is a
  \<open>defaultdict\<close> of buckets and is only ever indexed. The two dictionaries that
  the function later iterates over, \<open>session_id_to_latest_leave_evt\<close> and
  \<open>state_session_ids\<close>, are association lists with distinct keys, in the order
  of first insertion.
\<close>

record reduce_state =
  new_models_start_count :: int
  new_models_complete_count :: int
  new_models_end_sessions :: "string set"
  session_id_to_latest_leave_evt :: "(string \<times> (int \<times> string option)) list"
  old_models_start_count :: int
  old_models_complete_count :: int
  state_hit_counts :: hit_counts
  state_session_ids :: "(string option \<times> string set) list"

text \<open>
  \<open>state_hit_counts[state_name][k] += n\<close>. Indexing the outer \<open>defaultdict\<close> at a
  missing state name inserts an empty \<open>defaultdict(int)\<close>, whose missing keys
  read as 0. The buckets of the exploration's own states are plain
  dictionaries, but they hold all three keys from the start and no key is ever
  removed, so the same reading applies to them.
\<close>

definition add_count :: "hit_counts \<Rightarrow> string option \<Rightarrow> string \<Rightarrow> int \<Rightarrow> hit_counts" where
  "add_count shc state_name k n =
     (let b = (case shc state_name of None \<Rightarrow> Map.empty | Some b \<Rightarrow> b);
          old = (case b k of None \<Rightarrow> 0 | Some c \<Rightarrow> c)
      in shc(state_name \<mapsto> b(k \<mapsto> old + n)))"

text \<open>Reading a \<open>defaultdict\<close> with default \<open>d\<close> at a key.\<close>

definition lookup_default :: "'v \<Rightarrow> ('k \<times> 'v) list \<Rightarrow> 'k \<Rightarrow> 'v" where
  "lookup_default d al k = (case map_of al k of None \<Rightarrow> d | Some v \<Rightarrow> v)"

text \<open>The insertion that indexing a \<open>defaultdict\<close> at a missing key performs.\<close>

definition touch_default :: "'v \<Rightarrow> ('k \<times> 'v) list \<Rightarrow> 'k \<Rightarrow> ('k \<times> 'v) list" where
  "touch_default d al k = (case map_of al k of None \<Rightarrow> AList.update k d al | Some v \<Rightarrow> al)"

text \<open>The default of \<open>session_id_to_latest_leave_evt\<close>: \<open>(0, '')\<close>.\<close>

definition no_leave_evt :: "int \<times> string option" where
  "no_leave_evt = (0, Some [])"

text \<open>The state before the loop over the values.\<close>

definition initial_state :: "exploration \<Rightarrow> reduce_state" where
  "initial_state exploration =
     \<lparr>new_models_start_count = 0,
      new_models_complete_count = 0,
      new_models_end_sessions = {},
      session_id_to_latest_leave_evt = [],
      old_models_start_count = 0,
      old_models_complete_count = 0,
      state_hit_counts =
        fold (\<lambda>state_name shc.
                shc(Some state_name \<mapsto>
                  [''total_entry_count'' \<mapsto> 0, ''first_entry_count'' \<mapsto> 0,
                   ''no_answer_count'' \<mapsto> 0]))
          (states exploration) Map.empty,
      state_session_ids =
        fold (\<lambda>state_name ssi. AList.update (Some state_name) {} ssi)
          (states exploration) []\<rparr>"

text \<open>One iteration of the loop over the values.\<close>

fun process_value :: "exploration \<Rightarrow> reduce_state \<Rightarrow> mapped_value \<Rightarrow> reduce_state" where
  "process_value exploration st
       (Counter _ _ state_name first_entry_count subsequent_entries_count
          resolved_answer_count active_answer_count) =
     (let st1 = (if state_name = Some (init_state_name exploration)
                 then st\<lparr>old_models_start_count := first_entry_count\<rparr> else st)
      in if state_name = Some OLD_END_DEST
         then st1\<lparr>old_models_complete_count := first_entry_count\<rparr>
         else st1\<lparr>state_hit_counts :=
                 add_count
                   (add_count
                      (add_count (state_hit_counts st1) state_name ''no_answer_count''
                         (first_entry_count + subsequent_entries_count
                            - resolved_answer_count - active_answer_count))
                      state_name ''first_entry_count'' first_entry_count)
                   state_name ''total_entry_count''
                   (first_entry_count + subsequent_entries_count)\<rparr>)"
| "process_value exploration st (Event event_type session_id state_name created_on _ _) =
     (if event_type = EVENT_TYPE_START_EXPLORATION
      then st\<lparr>new_models_start_count := new_models_start_count st + 1\<rparr>
      else if event_type = EVENT_TYPE_COMPLETE_EXPLORATION
      then st\<lparr>new_models_complete_count := new_models_complete_count st + 1,
              new_models_end_sessions := insert session_id (new_models_end_sessions st)\<rparr>
      else if event_type = EVENT_TYPE_MAYBE_LEAVE_EXPLORATION
      then
        (let latest_timestamp_so_far =
               fst (lookup_default no_leave_evt (session_id_to_latest_leave_evt st) session_id);
             leave = touch_default no_leave_evt (session_id_to_latest_leave_evt st) session_id
         in if latest_timestamp_so_far < created_on
            then st\<lparr>session_id_to_latest_leave_evt :=
                      AList.update session_id (created_on, state_name) leave\<rparr>
            else st\<lparr>session_id_to_latest_leave_evt := leave\<rparr>)
      else if event_type = EVENT_TYPE_STATE_HIT
      then st\<lparr>state_hit_counts :=
                add_count (state_hit_counts st) state_name ''total_entry_count'' 1,
              state_session_ids :=
                AList.update state_name
                  (insert session_id (lookup_default {} (state_session_ids st) state_name))
                  (state_session_ids st)\<rparr>
      else st)"

text \<open>
  The loop that adds the size of each state's set of session ids to its
  \<open>first_entry_count\<close>.
\<close>

definition add_first_entries :: "(string option \<times> string set) list \<Rightarrow> hit_counts \<Rightarrow> hit_counts" where
  "add_first_entries ssi shc =
     fold (\<lambda>state_name shc.
             add_count shc state_name ''first_entry_count''
               (int (card (lookup_default {} ssi state_name))))
       (map fst ssi) shc"

text \<open>
  \<open>leave_states\<close>: the keys of \<open>session_id_to_latest_leave_evt\<close> without the
  sessions that completed, and the loop that counts one \<open>no_answer_count\<close> for
  the state each of them left on.
\<close>

definition leave_states :: "(string \<times> (int \<times> string option)) list \<Rightarrow> string set \<Rightarrow> string list" where
  "leave_states leave ends = filter (\<lambda>session_id. session_id \<notin> ends) (map fst leave)"

definition add_no_answers ::
  "(string \<times> (int \<times> string option)) list \<Rightarrow> string set \<Rightarrow> hit_counts \<Rightarrow> hit_counts" where
  "add_no_answers leave ends shc =
     fold (\<lambda>session_id shc.
             add_count shc (snd (lookup_default no_leave_evt leave session_id))
               ''no_answer_count'' 1)
       (leave_states leave ends) shc"

text \<open>
  Modelled from the spec: \<open>ExplorationAnnotationsModel.create\<close>, not part of the
  sources at hand. It writes one snapshot under the key of the exploration and
  version scope, replacing any earlier one, and stamps it with the time of the
  write.
\<close>

definition create ::
  "int \<Rightarrow> annotations_store \<Rightarrow> string \<Rightarrow> string \<Rightarrow> int \<Rightarrow> int \<Rightarrow> hit_counts \<Rightarrow> annotations_store" where
  "create now ms exp_id version num_starts num_completions shc =
     ms(get_entity_id exp_id version \<mapsto>
       \<lparr>mr_exploration_id = exp_id, mr_version = version, mr_num_starts = num_starts,
        mr_num_completions = num_completions, mr_state_hit_counts = shc,
        mr_last_updated = now\<rparr>)"

text \<open>
  The reduce function. Unpacking \<open>key.split(':')\<close> into two names raises
  \<open>ValueError\<close> unless there are exactly two parts.
\<close>

definition StatisticsMRJobManager_reduce ::
  "services \<Rightarrow> int \<Rightarrow> annotations_store \<Rightarrow> string \<Rightarrow> mapped_value list
     \<Rightarrow> error + annotations_store" where
  "StatisticsMRJobManager_reduce svc now ms key vals =
     (case str_split (CHR '':'') key of
        [exp_id, version] \<Rightarrow>
          (case resolve_exploration svc exp_id version of
             None \<Rightarrow> Inr ms
           | Some exploration \<Rightarrow>
               (let st = fold (\<lambda>v st. process_value exploration st v) vals
                           (initial_state exploration);
                    shc1 = add_first_entries (state_session_ids st) (state_hit_counts st);
                    shc2 = add_no_answers (session_id_to_latest_leave_evt st)
                             (new_models_end_sessions st) shc1;
                    num_starts = old_models_start_count st + new_models_start_count st;
                    num_completions =
                      old_models_complete_count st + new_models_complete_count st
                in Inr (create now ms exp_id version num_starts num_completions shc2)))
      | _ \<Rightarrow> Inl ValueError)"

subsection \<open>Reading the statistics off the list of values\<close>

text \<open>
  The functions below describe, directly on the list of values handed to the
  reduce function, the quantities that the properties speak about. They take
  no part in the model of the code.
\<close>

text \<open>
  \<open>state_hit_counts[state_name][k]\<close> read the way the \<open>defaultdict\<close> reads it (a
  missing bucket or key is 0), and whether the key is stored at all.
\<close>

definition count_of :: "hit_counts \<Rightarrow> string option \<Rightarrow> string \<Rightarrow> int" where
  "count_of shc state_name k =
     (case shc state_name of
        None \<Rightarrow> 0
      | Some b \<Rightarrow> (case b k of None \<Rightarrow> 0 | Some c \<Rightarrow> c))"

definition has_count :: "hit_counts \<Rightarrow> string option \<Rightarrow> string \<Rightarrow> bool" where
  "has_count shc state_name k =
     (case shc state_name of
        None \<Rightarrow> False
      | Some b \<Rightarrow> (case b k of None \<Rightarrow> False | Some c \<Rightarrow> True))"

text \<open>Whether a value is an event of the given type.\<close>

fun is_event :: "string \<Rightarrow> mapped_value \<Rightarrow> bool" where
  "is_event t (Event event_type _ _ _ _ _) = (event_type = t)"
| "is_event t (Counter _ _ _ _ _ _ _) = False"

fun is_counter :: "mapped_value \<Rightarrow> bool" where
  "is_counter (Counter _ _ _ _ _ _ _) = True"
| "is_counter (Event _ _ _ _ _ _) = False"

text \<open>The number of events of a type among the values.\<close>

definition count_events :: "string \<Rightarrow> mapped_value list \<Rightarrow> int" where
  "count_events t vals = int (length (filter (is_event t) vals))"

text \<open>
  The legacy start count: the \<open>first_entry_count\<close> of the last counter record
  for the initial state, 0 without one. Likewise the legacy completion count
  with the counter records for \<open>END\<close>.
\<close>

fun first_entry_at :: "string \<Rightarrow> mapped_value \<Rightarrow> int list" where
  "first_entry_at s (Counter _ _ state_name first_entry_count _ _ _) =
     (if state_name = Some s then [first_entry_count] else [])"
| "first_entry_at s (Event _ _ _ _ _ _) = []"

definition legacy_start_count :: "exploration \<Rightarrow> mapped_value list \<Rightarrow> int" where
  "legacy_start_count exploration vals =
     last (0 # concat (map (first_entry_at (init_state_name exploration)) vals))"

definition legacy_completion_count :: "mapped_value list \<Rightarrow> int" where
  "legacy_completion_count vals = last (0 # concat (map (first_entry_at OLD_END_DEST) vals))"

text \<open>
  What the counter records for a state other than \<open>END\<close> add to the key \<open>k\<close> of
  that state's bucket.
\<close>

fun legacy_amount :: "string option \<Rightarrow> string \<Rightarrow> mapped_value \<Rightarrow> int" where
  "legacy_amount s k (Counter _ _ state_name first_entry_count subsequent_entries_count
       resolved_answer_count active_answer_count) =
     (if state_name = s \<and> state_name \<noteq> Some OLD_END_DEST then
        (if k = ''no_answer_count''
         then first_entry_count + subsequent_entries_count
                - resolved_answer_count - active_answer_count
         else if k = ''first_entry_count'' then first_entry_count
         else if k = ''total_entry_count'' then first_entry_count + subsequent_entries_count
         else 0)
      else 0)"
| "legacy_amount s k (Event _ _ _ _ _ _) = 0"

definition legacy_count :: "mapped_value list \<Rightarrow> string option \<Rightarrow> string \<Rightarrow> int" where
  "legacy_count vals s k = sum_list (map (legacy_amount s k) vals)"

text \<open>The session ids of the state hit events at a state, one per event.\<close>

fun hit_at :: "string option \<Rightarrow> mapped_value \<Rightarrow> string list" where
  "hit_at s (Event event_type session_id state_name _ _ _) =
     (if event_type = EVENT_TYPE_STATE_HIT \<and> state_name = s then [session_id] else [])"
| "hit_at s (Counter _ _ _ _ _ _ _) = []"

definition hits :: "mapped_value list \<Rightarrow> string option \<Rightarrow> string list" where
  "hits vals s = concat (map (hit_at s) vals)"

text \<open>The session ids of the complete events.\<close>

fun completion_of :: "mapped_value \<Rightarrow> string list" where
  "completion_of (Event event_type session_id _ _ _ _) =
     (if event_type = EVENT_TYPE_COMPLETE_EXPLORATION then [session_id] else [])"
| "completion_of (Counter _ _ _ _ _ _ _) = []"

definition completed_sessions :: "mapped_value list \<Rightarrow> string set" where
  "completed_sessions vals = set (concat (map completion_of vals))"

text \<open>Whether a session has a complete event later than the time \<open>t\<close>.\<close>

fun completion_after :: "string \<Rightarrow> int \<Rightarrow> mapped_value \<Rightarrow> bool" where
  "completion_after sid t (Event event_type session_id _ created_on _ _) =
     (event_type = EVENT_TYPE_COMPLETE_EXPLORATION \<and> session_id = sid \<and> t < created_on)"
| "completion_after sid t (Counter _ _ _ _ _ _ _) = False"

definition has_later_completion :: "mapped_value list \<Rightarrow> string \<Rightarrow> int \<Rightarrow> bool" where
  "has_later_completion vals sid t = list_ex (completion_after sid t) vals"

text \<open>
  The maybe leave events of a session, as pairs of timestamp and state name, in
  the order of the values; and the session ids that have one.
\<close>

fun leave_of :: "string \<Rightarrow> mapped_value \<Rightarrow> (int \<times> string option) list" where
  "leave_of sid (Event event_type session_id state_name created_on _ _) =
     (if event_type = EVENT_TYPE_MAYBE_LEAVE_EXPLORATION \<and> session_id = sid
      then [(created_on, state_name)] else [])"
| "leave_of sid (Counter _ _ _ _ _ _ _) = []"

definition leave_events :: "mapped_value list \<Rightarrow> string \<Rightarrow> (int \<times> string option) list" where
  "leave_events vals sid = concat (map (leave_of sid) vals)"

fun leaving_session :: "mapped_value \<Rightarrow> string list" where
  "leaving_session (Event event_type session_id _ _ _ _) =
     (if event_type = EVENT_TYPE_MAYBE_LEAVE_EXPLORATION then [session_id] else [])"
| "leaving_session (Counter _ _ _ _ _ _ _) = []"

definition leave_sessions :: "mapped_value list \<Rightarrow> string set" where
  "leave_sessions vals = set (concat (map leaving_session vals))"

text \<open>
  The last known position among the maybe leave events of a session: the first
  of the events that carry the latest timestamp, provided that timestamp is
  after 0; otherwise the default \<open>(0, '')\<close>.
\<close>

definition latest_leave :: "(int \<times> string option) list \<Rightarrow> int \<times> string option" where
  "latest_leave evts =
     (let m = Max (insert 0 (fst ` set evts))
      in case find (\<lambda>evt. fst evt = m \<and> 0 < m) evts of
           None \<Rightarrow> no_leave_evt
         | Some evt \<Rightarrow> evt)"

text \<open>
  The sessions counted as having left at a state: those with a maybe leave
  event and no complete event whose last known position is that state.
\<close>

definition abandoned_at :: "mapped_value list \<Rightarrow> string option \<Rightarrow> string set" where
  "abandoned_at vals s =
     Set.filter (\<lambda>sid. snd (latest_leave (leave_events vals sid)) = s)
       (leave_sessions vals - completed_sessions vals)"

text \<open>The state after the loop over the values.\<close>

definition final_state :: "exploration \<Rightarrow> mapped_value list \<Rightarrow> reduce_state" where
  "final_state exploration vals =
     fold (\<lambda>v st. process_value exploration st v) vals (initial_state exploration)"

text \<open>
  The \<open>state_hit_counts\<close> handed to \<open>create\<close>, as a function of the resolved
  exploration and the values.
\<close>

definition snapshot_counts :: "exploration \<Rightarrow> mapped_value list \<Rightarrow> hit_counts" where
  "snapshot_counts e vs =
     add_no_answers (session_id_to_latest_leave_evt (final_state e vs))
       (new_models_end_sessions (final_state e vs))
       (add_first_entries (state_session_ids (final_state e vs))
          (state_hit_counts (final_state e vs)))"

text \<open>
  A count read off the snapshot that a call of the reduce function left under
  an entity id; \<open>None\<close> when the call raised or the id holds no snapshot.
\<close>

definition written_count ::
  "error + annotations_store \<Rightarrow> string \<times> string \<Rightarrow> string option \<Rightarrow> string \<Rightarrow> int option" where
  "written_count r entity_id s k =
     (case r of
        Inl _ \<Rightarrow> None
      | Inr ms \<Rightarrow>
          (case ms entity_id of
             None \<Rightarrow> None
           | Some snap \<Rightarrow> Some (count_of (mr_state_hit_counts snap) s k)))"

subsection \<open>Sample data\<close>

text \<open>
  An exploration with the states \<open>A\<close> (initial) and \<open>B\<close>, stored as \<open>e1\<close>; the
  events of two sessions; and three legacy counter records.
\<close>

definition sample_exploration :: exploration where
  "sample_exploration =
     \<lparr>states = [''A'', ''B''], init_state_name = ''A'', exp_version = 1,
      exp_last_updated = 1400000000000\<rparr>"

definition sample_services :: services where
  "sample_services =
     \<lparr>get_exploration_by_id =
        (\<lambda>exp_id version. if exp_id = ''e1'' then Some sample_exploration else None),
      get_version = (\<lambda>exp_id n. None)\<rparr>"

definition sample_values :: "mapped_value list" where
  "sample_values =
     [Event ''start'' ''s1'' (Some ''A'') 1 ''e1'' ''all'',
      Event ''state_hit'' ''s1'' (Some ''A'') 2 ''e1'' ''all'',
      Event ''state_hit'' ''s1'' (Some ''B'') 3 ''e1'' ''all'',
      Event ''state_hit'' ''s1'' (Some ''A'') 4 ''e1'' ''all'',
      Event ''maybe_leave'' ''s1'' (Some ''B'') 5 ''e1'' ''all'',
      Event ''maybe_leave'' ''s1'' (Some ''A'') 6 ''e1'' ''all'',
      Event ''start'' ''s2'' (Some ''A'') 7 ''e1'' ''all'',
      Event ''state_hit'' ''s2'' (Some ''A'') 8 ''e1'' ''all'',
      Event ''maybe_leave'' ''s2'' (Some ''A'') 9 ''e1'' ''all'',
      Event ''complete'' ''s2'' (Some ''B'') 10 ''e1'' ''all'']"

definition sample_counters :: "mapped_value list" where
  "sample_counters =
     [Counter ''e1'' ''none'' (Some ''A'') 7 2 1 1,
      Counter ''e1'' ''none'' (Some ''END'') 4 0 0 0,
      Counter ''e1'' ''none'' (Some ''B'') 5 1 2 0]"

text \<open>A session that completes and only afterwards sends a maybe leave event.\<close>

definition completion_then_leave :: "mapped_value list" where
  "completion_then_leave =
     [Event ''complete'' ''s1'' (Some ''B'') 5 ''e1'' ''all'',
      Event ''maybe_leave'' ''s1'' (Some ''A'') 10 ''e1'' ''all'']"

subsection \<open>InteractionAnswerSummariesMRJobManager.reduce\<close>

text \<open>The dictionary yielded by the map function of the answer summaries job.\<close>

record 'a state_answers_dict =
  exploration_id :: string
  exploration_version :: string
  state_name :: string
  interaction_id :: string
  submitted_answer_list :: "'a list"

text \<open>
  The interaction and calculation registries are not part of the sources at
  hand and are taken as parameters. \<open>get_interaction_by_id\<close> gives the
  \<open>answer_calculation_ids\<close> of the interaction, \<open>get_calculation_by_id\<close> gives
  the calculation's \<open>calculate_from_state_answers_dict\<close>; \<open>None\<close> stands for a
  raised exception.
\<close>

record ('a, 'o) registries =
  get_interaction_by_id :: "string \<Rightarrow> string list option"
  get_calculation_by_id :: "string \<Rightarrow> ('a state_answers_dict \<Rightarrow> 'o option) option"

text \<open>The dictionary \<open>combined_state_answers\<close>.\<close>

definition combined_state_answers ::
  "string \<Rightarrow> string \<Rightarrow> string \<Rightarrow> string \<Rightarrow> 'a state_answers_dict list \<Rightarrow> 'a state_answers_dict" where
  "combined_state_answers e v s i state_answers_dicts =
     \<lparr>exploration_id = e, exploration_version = v, state_name = s, interaction_id = i,
      submitted_answer_list = concat (map submitted_answer_list state_answers_dicts)\<rparr>"

text \<open>
  The loop over the calculations. \<open>calc_output.save()\<close> appends to the list of
  saved outputs; a failing calculation stops the loop with what was saved
  before it.
\<close>

fun run_calculations ::
  "('d \<Rightarrow> 'o option) list \<Rightarrow> 'd \<Rightarrow> 'o list \<Rightarrow> 'o list \<times> error option" where
  "run_calculations [] d saved = (saved, None)"
| "run_calculations (calc # calcs) d saved =
     (case calc d of
        None \<Rightarrow> (saved, Some CalculationError)
      | Some calc_output \<Rightarrow> run_calculations calcs d (saved @ [calc_output]))"

text \<open>
  The reduce function returns the saved outputs and the exception that ended
  it, if any. \<open>stringified_state_answers_dicts[0]\<close> raises \<open>IndexError\<close> on an
  empty list.
\<close>

definition InteractionAnswerSummariesMRJobManager_reduce ::
  "('a, 'o) registries \<Rightarrow> 'o list \<Rightarrow> string \<Rightarrow> 'a state_answers_dict list
     \<Rightarrow> 'o list \<times> error option" where
  "InteractionAnswerSummariesMRJobManager_reduce reg saved key state_answers_dicts =
     (case str_split (CHR '':'') key of
        [e, v, s] \<Rightarrow>
          (case state_answers_dicts of
             [] \<Rightarrow> (saved, Some IndexError)
           | first_dict # _ \<Rightarrow>
               (let i = interaction_id first_dict;
                    combined = combined_state_answers e v s i state_answers_dicts
                in case get_interaction_by_id reg i of
                     None \<Rightarrow> (saved, Some RegistryError)
                   | Some calc_ids \<Rightarrow>
                       (case those (map (get_calculation_by_id reg) calc_ids) of
                          None \<Rightarrow> (saved, Some RegistryError)
                        | Some calculations \<Rightarrow>
                            run_calculations calculations combined saved)))
      | _ \<Rightarrow> (saved, Some ValueError))"

subsection \<open>More sample data\<close>

text \<open>
  Services that hold version 2 of \<open>e1\<close>, committed after the cutoff date, and no
  earlier version; a registry with one interaction and one calculation, which
  counts the answers; and the answers to state \<open>A\<close> in two versions.
\<close>

definition sample_recent_services :: services where
  "sample_recent_services =
     \<lparr>get_exploration_by_id =
        (\<lambda>exp_id version.
           if exp_id = ''e1''
           then Some (sample_exploration\<lparr>exp_version := 2, exp_last_updated := 1500000000000\<rparr>)
           else None),
      get_version = (\<lambda>exp_id n. None)\<rparr>"

definition sample_registries :: "(string, nat) registries" where
  "sample_registries =
     \<lparr>get_interaction_by_id = (\<lambda>i. if i = ''TextInput'' then Some [''AnswerCount''] else None),
      get_calculation_by_id =
        (\<lambda>c. if c = ''AnswerCount''
             then Some (\<lambda>d. Some (length (submitted_answer_list d))) else None)\<rparr>"

definition sample_answers :: "string state_answers_dict list" where
  "sample_answers =
     [\<lparr>exploration_id = ''e1'', exploration_version = ''1'', state_name = ''A'',
        interaction_id = ''TextInput'', submitted_answer_list = [''a'', ''b'']\<rparr>,
      \<lparr>exploration_id = ''e1'', exploration_version = ''2'', state_name = ''A'',
        interaction_id = ''Continue'', submitted_answer_list = [''c'']\<rparr>]"

section \<open>Properties\<close>

subsection \<open>The live counters\<close>

text \<open>
  C9. A start event for an exploration with no realtime counter in the active
  layer creates one with \<open>num_starts = 1\<close> and \<open>num_completions = 0\<close>; with a
  counter present, \<open>num_starts\<close> grows by exactly one and \<open>num_completions\<close>
  stays. A complete event does the same with the two fields swapped. No other
  counter is touched.
\<close>

theorem handle_incoming_event_counts:
  "(\<exists>rs'. handle_incoming_event rs layer EVENT_TYPE_START_EXPLORATION (exp_id # rest) = Inr rs'
        \<and> (rs (get_realtime_id layer exp_id) = None \<longrightarrow>
             rs' (get_realtime_id layer exp_id) =
               Some \<lparr>realtime_layer = layer, rt_num_starts = 1, rt_num_completions = 0\<rparr>)
        \<and> (\<forall>m. rs (get_realtime_id layer exp_id) = Some m \<longrightarrow>
             (\<exists>m'. rs' (get_realtime_id layer exp_id) = Some m'
                \<and> rt_num_starts m' = rt_num_starts m + 1
                \<and> rt_num_completions m' = rt_num_completions m))
        \<and> (\<forall>k. k \<noteq> get_realtime_id layer exp_id \<longrightarrow> rs' k = rs k))
   \<and> (\<exists>rs'. handle_incoming_event rs layer EVENT_TYPE_COMPLETE_EXPLORATION (exp_id # rest) = Inr rs'
        \<and> (rs (get_realtime_id layer exp_id) = None \<longrightarrow>
             rs' (get_realtime_id layer exp_id) =
               Some \<lparr>realtime_layer = layer, rt_num_starts = 0, rt_num_completions = 1\<rparr>)
        \<and> (\<forall>m. rs (get_realtime_id layer exp_id) = Some m \<longrightarrow>
             (\<exists>m'. rs' (get_realtime_id layer exp_id) = Some m'
                \<and> rt_num_completions m' = rt_num_completions m + 1
                \<and> rt_num_starts m' = rt_num_starts m))
        \<and> (\<forall>k. k \<noteq> get_realtime_id layer exp_id \<longrightarrow> rs' k = rs k))"
  by (auto simp: handle_incoming_event_def increment_visit_counter_def
      increment_completion_counter_def Let_def
      EVENT_TYPE_START_EXPLORATION_def EVENT_TYPE_COMPLETE_EXPLORATION_def
      split: option.splits)

theorem handle_incoming_event_counts_witness:
  "(\<exists>rs'. handle_incoming_event Map.empty 0 EVENT_TYPE_START_EXPLORATION [''e1''] = Inr rs'
        \<and> rs' (0, ''e1'') =
            Some \<lparr>realtime_layer = 0, rt_num_starts = 1, rt_num_completions = 0\<rparr>)
   \<and> (\<exists>rs' m'. handle_incoming_event
          [(0, ''e1'') \<mapsto> \<lparr>realtime_layer = 0, rt_num_starts = 3, rt_num_completions = 2\<rparr>]
          0 EVENT_TYPE_COMPLETE_EXPLORATION [''e1''] = Inr rs'
        \<and> rs' (0, ''e1'') = Some m' \<and> rt_num_completions m' = 3 \<and> rt_num_starts m' = 3
        \<and> rs' (1, ''e1'') = None)"
  using handle_incoming_event_counts [of Map.empty 0 "''e1''" "[]"]
    handle_incoming_event_counts
      [of "[(0, ''e1'') \<mapsto> \<lparr>realtime_layer = 0, rt_num_starts = 3, rt_num_completions = 2\<rparr>]"
          0 "''e1''" "[]"]
  by (auto simp: get_realtime_id_def)

subsection \<open>The query methods\<close>

text \<open>
  C8. For every list of exploration ids and every content of the two stores,
  \<open>get_views_multi\<close> returns, position by position, the
  \<open>start_exploration_count\<close> that \<open>get_statistics\<close> returns for that exploration
  and the version \<open>all\<close>: the \<open>num_starts\<close> of the canonical snapshot (0 if
  absent) plus the \<open>num_starts\<close> of the live counter (0 if absent).
\<close>

theorem get_views_multi_get_statistics:
  "get_views_multi ms rs layer ids =
     map (\<lambda>e. start_exploration_count (get_statistics ms rs layer e VERSION_ALL)) ids
   \<and> (\<forall>i < length ids.
         get_views_multi ms rs layer ids ! i =
           (case ms (get_entity_id (ids ! i) VERSION_ALL) of
              None \<Rightarrow> 0 | Some m \<Rightarrow> mr_num_starts m)
           + (case rs (get_realtime_id layer (ids ! i)) of
                None \<Rightarrow> 0 | Some r \<Rightarrow> rt_num_starts r))"
proof -
  have stat: "start_exploration_count (get_statistics ms rs layer e VERSION_ALL) =
      (case ms (get_entity_id e VERSION_ALL) of None \<Rightarrow> 0 | Some m \<Rightarrow> mr_num_starts m)
      + (case rs (get_realtime_id layer e) of None \<Rightarrow> 0 | Some r \<Rightarrow> rt_num_starts r)" for e
    by (simp add: get_statistics_def get_active_realtime_layer_id_def Let_def
        split: option.splits)
  have views: "get_views_multi ms rs layer ids =
      map (\<lambda>i. (\<lambda>e. (case ms (get_entity_id e VERSION_ALL) of
                        None \<Rightarrow> 0 | Some m \<Rightarrow> mr_num_starts m)
                    + (case rs (get_realtime_id layer e) of
                        None \<Rightarrow> 0 | Some r \<Rightarrow> rt_num_starts r)) (ids ! i))
        [0..<length ids]"
    by (simp add: get_views_multi_def get_multi_def get_multi_active_realtime_layer_ids_def
        Let_def)
  have eq: "get_views_multi ms rs layer ids =
      map (\<lambda>e. start_exploration_count (get_statistics ms rs layer e VERSION_ALL)) ids"
    unfolding views by (rule nth_equalityI) (simp_all add: stat)
  show ?thesis
    using eq by (simp add: stat)
qed

theorem get_views_multi_get_statistics_witness:
  "get_views_multi
     [(''e1'', ''all'') \<mapsto> \<lparr>mr_exploration_id = ''e1'', mr_version = ''all'', mr_num_starts = 2,
         mr_num_completions = 0, mr_state_hit_counts = Map.empty, mr_last_updated = 7\<rparr>]
     [(0, ''e1'') \<mapsto> \<lparr>realtime_layer = 0, rt_num_starts = 1, rt_num_completions = 0\<rparr>,
      (0, ''e2'') \<mapsto> \<lparr>realtime_layer = 0, rt_num_starts = 5, rt_num_completions = 1\<rparr>]
     0 [''e1'', ''e2''] = [3, 5]
   \<and> (0::nat) < length [''e1'', ''e2'']"
  using get_views_multi_get_statistics
    [of "[(''e1'', ''all'') \<mapsto> \<lparr>mr_exploration_id = ''e1'', mr_version = ''all'',
            mr_num_starts = 2, mr_num_completions = 0, mr_state_hit_counts = Map.empty,
            mr_last_updated = 7\<rparr>]"
        "[(0, ''e1'') \<mapsto> \<lparr>realtime_layer = 0, rt_num_starts = 1, rt_num_completions = 0\<rparr>,
          (0, ''e2'') \<mapsto> \<lparr>realtime_layer = 0, rt_num_starts = 5, rt_num_completions = 1\<rparr>]"
        0 "[''e1'', ''e2'']"]
  by (simp add: get_statistics_def get_entity_id_def get_active_realtime_layer_id_def
      get_realtime_id_def VERSION_ALL_def)

subsection \<open>The loop of the reduce function\<close>


lemmas event_type_defs =
  EVENT_TYPE_START_EXPLORATION_def EVENT_TYPE_COMPLETE_EXPLORATION_def
  EVENT_TYPE_MAYBE_LEAVE_EXPLORATION_def EVENT_TYPE_STATE_HIT_def

lemma count_of_add_count:
  "count_of (add_count shc s k n) s' k' =
     count_of shc s' k' + (if s' = s \<and> k' = k then n else 0)"
  by (auto simp: count_of_def add_count_def Let_def split: option.splits)

lemma add_count_other:
  "s' \<noteq> s \<Longrightarrow> add_count shc s k n s' = shc s'"
  by (simp add: add_count_def Let_def)

lemma has_count_add_count:
  "has_count (add_count shc s k n) s' k' = (has_count shc s' k' \<or> (s' = s \<and> k' = k))"
  by (auto simp: has_count_def add_count_def Let_def split: option.splits)

lemma count_of_fold_add_count:
  "count_of (fold (\<lambda>x shc. add_count shc (f x) k (g x)) xs shc) s k' =
     count_of shc s k' + (if k' = k then sum_list (map g (filter (\<lambda>x. f x = s) xs)) else 0)"
  by (induction xs arbitrary: shc) (auto simp: count_of_add_count)

lemma has_count_fold_add_count:
  "has_count (fold (\<lambda>x shc. add_count shc (f x) k (g x)) xs shc) s k' =
     (has_count shc s k' \<or> (k' = k \<and> s \<in> f ` set xs))"
  by (induction xs arbitrary: shc) (auto simp: has_count_add_count)

lemma fold_init_buckets:
  "fold (\<lambda>n shc. shc(Some n \<mapsto> b)) ns m s =
     (if s \<in> Some ` set ns then Some b else m s)"
  by (induction ns arbitrary: m) auto

lemma initial_count_of [simp]:
  "count_of (state_hit_counts (initial_state e)) s k = 0"
  by (simp add: initial_state_def count_of_def fold_init_buckets)

lemma initial_has_count:
  "has_count (state_hit_counts (initial_state e)) s k =
     (s \<in> Some ` set (states e)
      \<and> k \<in> {''total_entry_count'', ''first_entry_count'', ''no_answer_count''})"
  by (simp add: initial_state_def has_count_def fold_init_buckets)

lemma final_state_Nil [simp]: "final_state e [] = initial_state e"
  by (simp add: final_state_def)

lemma final_state_snoc [simp]:
  "final_state e (vs @ [v]) = process_value e (final_state e vs) v"
  by (simp add: final_state_def)

lemma process_value_start_count:
  "new_models_start_count (process_value e st v) =
     new_models_start_count st + (if is_event EVENT_TYPE_START_EXPLORATION v then 1 else 0)"
  by (cases v) (simp_all add: Let_def event_type_defs)

lemma process_value_complete_count:
  "new_models_complete_count (process_value e st v) =
     new_models_complete_count st + (if is_event EVENT_TYPE_COMPLETE_EXPLORATION v then 1 else 0)"
  by (cases v) (simp_all add: Let_def event_type_defs)

lemma process_value_end_sessions:
  "new_models_end_sessions (process_value e st v) =
     new_models_end_sessions st \<union> set (completion_of v)"
  by (cases v) (simp_all add: Let_def event_type_defs)

lemma process_value_old_start:
  "old_models_start_count (process_value e st v) =
     last (old_models_start_count st # first_entry_at (init_state_name e) v)"
  by (cases v) (simp_all add: Let_def event_type_defs)

lemma process_value_old_complete:
  "old_models_complete_count (process_value e st v) =
     last (old_models_complete_count st # first_entry_at OLD_END_DEST v)"
  by (cases v) (simp_all add: Let_def event_type_defs)

lemma process_value_count_of:
  "count_of (state_hit_counts (process_value e st v)) s k =
     count_of (state_hit_counts st) s k + legacy_amount s k v
       + (if k = ''total_entry_count'' then int (length (hit_at s v)) else 0)"
  by (cases v) (auto simp add: Let_def event_type_defs count_of_add_count)

lemma final_start_count:
  "new_models_start_count (final_state e vs) = count_events EVENT_TYPE_START_EXPLORATION vs"
  by (induction vs rule: rev_induct)
     (simp_all add: process_value_start_count count_events_def initial_state_def)

lemma final_complete_count:
  "new_models_complete_count (final_state e vs) = count_events EVENT_TYPE_COMPLETE_EXPLORATION vs"
  by (induction vs rule: rev_induct)
     (simp_all add: process_value_complete_count count_events_def initial_state_def)

lemma final_end_sessions:
  "new_models_end_sessions (final_state e vs) = completed_sessions vs"
  by (induction vs rule: rev_induct)
     (simp_all add: process_value_end_sessions completed_sessions_def initial_state_def)

lemma last_cons_append: "last (last (a # xs) # ys) = last (a # xs @ ys)"
  by (cases ys) simp_all

lemma final_old_start:
  "old_models_start_count (final_state e vs) = legacy_start_count e vs"
proof (induction vs rule: rev_induct)
  case Nil
  show ?case by (simp add: legacy_start_count_def initial_state_def)
next
  case (snoc v vs)
  then show ?case
    by (simp add: process_value_old_start legacy_start_count_def last_cons_append
        del: last.simps)
qed

lemma final_old_complete:
  "old_models_complete_count (final_state e vs) = legacy_completion_count vs"
proof (induction vs rule: rev_induct)
  case Nil
  show ?case by (simp add: legacy_completion_count_def initial_state_def)
next
  case (snoc v vs)
  then show ?case
    by (simp add: process_value_old_complete legacy_completion_count_def last_cons_append
        del: last.simps)
qed

lemma final_count_of:
  "count_of (state_hit_counts (final_state e vs)) s k =
     legacy_count vs s k + (if k = ''total_entry_count'' then int (length (hits vs s)) else 0)"
  by (induction vs rule: rev_induct)
     (simp_all add: process_value_count_of legacy_count_def hits_def)


text \<open>The sets of session ids per state.\<close>

lemma lookup_default_map_of:
  "lookup_default d al k = (case map_of al k of None \<Rightarrow> d | Some v \<Rightarrow> v)"
  by (simp add: lookup_default_def)

lemma fold_init_sessions_distinct:
  "distinct (map fst al) \<Longrightarrow>
   distinct (map fst (fold (\<lambda>n ssi. AList.update (Some n) {} ssi) ns al))"
  by (induction ns arbitrary: al) (auto simp: distinct_update)

lemma fold_init_sessions_map:
  "map_of (fold (\<lambda>n ssi. AList.update (Some n) {} ssi) ns al) s =
     (if s \<in> Some ` set ns then Some {} else map_of al s)"
  by (induction ns arbitrary: al) (auto simp: update_conv')

lemma process_value_ssi_distinct:
  "distinct (map fst (state_session_ids st)) \<Longrightarrow>
   distinct (map fst (state_session_ids (process_value e st v)))"
  by (cases v) (simp_all add: Let_def event_type_defs distinct_update)

lemma process_value_ssi_map:
  "map_of (state_session_ids (process_value e st v)) s =
     (if hit_at s v = [] then map_of (state_session_ids st) s
      else Some (set (hit_at s v) \<union> lookup_default {} (state_session_ids st) s))"
  by (cases v) (auto simp add: Let_def event_type_defs update_conv')

lemma final_ssi_distinct:
  "distinct (map fst (state_session_ids (final_state e vs)))"
proof (induction vs rule: rev_induct)
  case Nil
  show ?case by (simp add: initial_state_def fold_init_sessions_distinct)
next
  case (snoc v vs)
  then show ?case by (simp add: process_value_ssi_distinct)
qed

lemma final_ssi_map:
  "map_of (state_session_ids (final_state e vs)) s =
     (if s \<in> Some ` set (states e) \<or> hits vs s \<noteq> [] then Some (set (hits vs s)) else None)"
proof (induction vs rule: rev_induct)
  case Nil
  show ?case by (simp add: initial_state_def hits_def fold_init_sessions_map)
next
  case (snoc v vs)
  then show ?case
    by (auto simp add: process_value_ssi_map hits_def lookup_default_map_of)
qed

lemma count_of_add_first_entries:
  assumes "distinct (map fst ssi)"
  shows "count_of (add_first_entries ssi shc) s k =
     count_of shc s k
       + (if k = ''first_entry_count'' then int (card (lookup_default {} ssi s)) else 0)"
proof -
  have filt: "filter (\<lambda>x. x = s) (map fst ssi) = (if s \<in> fst ` set ssi then [s] else [])"
    using assms
  proof (induction ssi)
    case Nil
    show ?case by simp
  next
    case (Cons p ssi)
    then show ?case by (cases p) (auto simp: filter_empty_conv)
  qed
  have none: "lookup_default {} ssi s = {}" if "s \<notin> fst ` set ssi"
  proof -
    have "map_of ssi s = None" using that by (simp add: map_of_eq_None_iff)
    then show ?thesis by (simp add: lookup_default_def)
  qed
  show ?thesis
    unfolding add_first_entries_def count_of_fold_add_count filt
    using none by auto
qed

lemma has_count_add_first_entries:
  "has_count (add_first_entries ssi shc) s k =
     (has_count shc s k \<or> (k = ''first_entry_count'' \<and> s \<in> fst ` set ssi))"
  unfolding add_first_entries_def has_count_fold_add_count by auto


text \<open>The last known position of a session.\<close>

lemma find_append:
  "find P (xs @ ys) = (case find P xs of None \<Rightarrow> find P ys | Some x \<Rightarrow> Some x)"
  by (induction xs) simp_all

lemma latest_leave_Nil [simp]: "latest_leave [] = no_leave_evt"
  by (simp add: latest_leave_def)

lemma latest_leave_cases:
  fixes evts :: "(int \<times> string option) list"
  defines "m \<equiv> Max (insert 0 (fst ` set evts))"
  shows "(m = 0 \<and> latest_leave evts = no_leave_evt) \<or>
         (0 < m \<and> find (\<lambda>evt. fst evt = m \<and> 0 < m) evts = Some (latest_leave evts)
            \<and> fst (latest_leave evts) = m)"
proof -
  have fin: "finite (insert 0 (fst ` set evts))" by simp
  have ge: "0 \<le> m" unfolding m_def using fin by (simp add: Max_ge_iff)
  have mem: "m \<in> insert 0 (fst ` set evts)" unfolding m_def using fin by (intro Max_in) simp_all
  show ?thesis
  proof (cases "0 < m")
    case False
    with ge have m0: "m = 0" by simp
    then have "find (\<lambda>evt. fst evt = m \<and> 0 < m) evts = None"
      by (simp add: find_None_iff)
    then have "latest_leave evts = no_leave_evt"
      unfolding latest_leave_def m_def [symmetric] by (simp add: Let_def)
    with m0 show ?thesis by simp
  next
    case True
    with mem have "m \<in> fst ` set evts" by auto
    then obtain x where x: "x \<in> set evts" "fst x = m" by auto
    with True have "\<exists>y. y \<in> set evts \<and> (fst y = m \<and> 0 < m)" by blast
    then have "find (\<lambda>evt. fst evt = m \<and> 0 < m) evts \<noteq> None"
      unfolding find_None_iff by blast
    then obtain y where y: "find (\<lambda>evt. fst evt = m \<and> 0 < m) evts = Some y" by auto
    then have "fst y = m" by (auto simp: find_Some_iff)
    moreover have "latest_leave evts = y"
      unfolding latest_leave_def m_def [symmetric] using y by (simp add: Let_def)
    ultimately show ?thesis using True y by simp
  qed
qed

lemma fst_latest_leave:
  "fst (latest_leave evts) = Max (insert 0 (fst ` set evts))"
  using latest_leave_cases [of evts] by (auto simp: no_leave_evt_def)

lemma latest_leave_snoc:
  "latest_leave (evts @ [evt]) =
     (if fst (latest_leave evts) < fst evt then evt else latest_leave evts)"
proof -
  define m where "m = Max (insert 0 (fst ` set evts))"
  define m' where "m' = Max (insert 0 (fst ` set (evts @ [evt])))"
  have m': "m' = max (fst evt) m"
  proof -
    have "insert 0 (fst ` set (evts @ [evt])) = insert (fst evt) (insert 0 (fst ` set evts))"
      by auto
    then show ?thesis unfolding m'_def m_def by (simp del: Max_insert add: Max_insert [of "insert 0 (fst ` set evts)"])
  qed
  have le: "\<And>x. x \<in> set evts \<Longrightarrow> fst x \<le> m"
    unfolding m_def by (simp add: Max_ge_iff)
  have fm: "fst (latest_leave evts) = m" by (simp add: fst_latest_leave m_def)
  have ge: "0 \<le> m" unfolding m_def by (simp add: Max_ge_iff)
  show ?thesis
  proof (cases "m < fst evt")
    case True
    then have eq: "m' = fst evt" and pos: "0 < m'" using m' ge by auto
    have "find (\<lambda>x. fst x = m' \<and> 0 < m') evts = None"
      using le True eq by (force simp: find_None_iff)
    then have "find (\<lambda>x. fst x = m' \<and> 0 < m') (evts @ [evt]) = Some evt"
      using eq pos by (simp add: find_append)
    then have "latest_leave (evts @ [evt]) = evt"
      unfolding latest_leave_def m'_def [symmetric] by (simp add: Let_def)
    with True fm show ?thesis by simp
  next
    case False
    then have eq: "m' = m" using m' by auto
    from latest_leave_cases [of evts]
    have "latest_leave (evts @ [evt]) = latest_leave evts"
    proof (elim disjE conjE)
      assume m0: "Max (insert 0 (fst ` set evts)) = 0" and d: "latest_leave evts = no_leave_evt"
      then have "m' = 0" using eq m_def by simp
      then have "find (\<lambda>x. fst x = m' \<and> 0 < m') (evts @ [evt]) = None"
        by (simp add: find_None_iff)
      then have "latest_leave (evts @ [evt]) = no_leave_evt"
        unfolding latest_leave_def m'_def [symmetric] by (simp add: Let_def)
      with d show ?thesis by simp
    next
      assume f: "find (\<lambda>evt. fst evt = Max (insert 0 (fst ` set evts))
                    \<and> 0 < Max (insert 0 (fst ` set evts))) evts = Some (latest_leave evts)"
      then have "find (\<lambda>x. fst x = m' \<and> 0 < m') evts = Some (latest_leave evts)"
        using eq m_def by simp
      then have "find (\<lambda>x. fst x = m' \<and> 0 < m') (evts @ [evt]) = Some (latest_leave evts)"
        by (simp add: find_append)
      then show ?thesis
        unfolding latest_leave_def [of "evts @ [evt]"] m'_def [symmetric] by (simp add: Let_def)
    qed
    with False fm show ?thesis by simp
  qed
qed

lemma process_value_leave_distinct:
  "distinct (map fst (session_id_to_latest_leave_evt st)) \<Longrightarrow>
   distinct (map fst (session_id_to_latest_leave_evt (process_value e st v)))"
  by (cases v) (simp_all add: Let_def event_type_defs distinct_update touch_default_def
      split: option.splits)

lemma process_value_leave_map:
  "map_of (session_id_to_latest_leave_evt (process_value e st v)) sid =
     (case leave_of sid v of
        [] \<Rightarrow> map_of (session_id_to_latest_leave_evt st) sid
      | evt # _ \<Rightarrow>
          Some (if fst (lookup_default no_leave_evt (session_id_to_latest_leave_evt st) sid)
                     < fst evt
                then evt
                else lookup_default no_leave_evt (session_id_to_latest_leave_evt st) sid))"
  by (cases v)
     (auto simp add: Let_def event_type_defs update_conv' touch_default_def lookup_default_def
        split: option.splits)

lemma final_leave_distinct:
  "distinct (map fst (session_id_to_latest_leave_evt (final_state e vs)))"
proof (induction vs rule: rev_induct)
  case Nil
  show ?case by (simp add: initial_state_def)
next
  case (snoc v vs)
  then show ?case by (simp add: process_value_leave_distinct)
qed

lemma final_leave_map:
  "map_of (session_id_to_latest_leave_evt (final_state e vs)) sid =
     (if leave_events vs sid = [] then None else Some (latest_leave (leave_events vs sid)))"
proof (induction vs rule: rev_induct)
  case Nil
  show ?case by (simp add: initial_state_def leave_events_def)
next
  case (snoc v vs)
  have look: "lookup_default no_leave_evt (session_id_to_latest_leave_evt (final_state e vs)) sid
      = latest_leave (leave_events vs sid)"
    using snoc by (simp add: lookup_default_def)
  have app: "leave_events (vs @ [v]) sid = leave_events vs sid @ leave_of sid v"
    by (simp add: leave_events_def)
  show ?case
  proof (cases "leave_of sid v")
    case Nil
    then show ?thesis using snoc by (simp add: process_value_leave_map app)
  next
    case (Cons evt rest)
    then have one: "leave_of sid v = [evt]" by (cases v) (auto split: if_splits)
    show ?thesis
      by (simp add: process_value_leave_map app one look latest_leave_snoc)
  qed
qed

lemma leave_sessions_iff:
  "sid \<in> leave_sessions vs \<longleftrightarrow> leave_events vs sid \<noteq> []"
proof -
  have "sid \<in> set (leaving_session v) \<longleftrightarrow> leave_of sid v \<noteq> []" for v
    by (cases v) auto
  then show ?thesis by (auto simp: leave_sessions_def leave_events_def)
qed

lemma final_leave_keys:
  "fst ` set (session_id_to_latest_leave_evt (final_state e vs)) = leave_sessions vs"
proof -
  have "sid \<in> fst ` set (session_id_to_latest_leave_evt (final_state e vs))
      \<longleftrightarrow> sid \<in> leave_sessions vs" for sid
    using final_leave_map [of e vs sid] map_of_eq_None_iff
      [of "session_id_to_latest_leave_evt (final_state e vs)" sid]
    by (auto simp: leave_sessions_iff split: if_splits)
  then show ?thesis by blast
qed

lemma final_leave_lookup:
  "lookup_default no_leave_evt (session_id_to_latest_leave_evt (final_state e vs)) sid =
     latest_leave (leave_events vs sid)"
  by (simp add: lookup_default_def final_leave_map)

lemma count_of_add_no_answers:
  "count_of (add_no_answers leave ends shc) s k =
     count_of shc s k
       + (if k = ''no_answer_count''
          then int (length (filter (\<lambda>sid. snd (lookup_default no_leave_evt leave sid) = s)
                              (leave_states leave ends)))
          else 0)"
  unfolding add_no_answers_def count_of_fold_add_count by (simp add: sum_list_triv)

lemma has_count_add_no_answers:
  "has_count (add_no_answers leave ends shc) s k =
     (has_count shc s k \<or>
      (k = ''no_answer_count'' \<and>
       s \<in> (\<lambda>sid. snd (lookup_default no_leave_evt leave sid)) ` set (leave_states leave ends)))"
  unfolding add_no_answers_def has_count_fold_add_count by simp

lemma final_abandoned:
  "int (length (filter
       (\<lambda>sid. snd (lookup_default no_leave_evt
                      (session_id_to_latest_leave_evt (final_state e vs)) sid) = s)
       (leave_states (session_id_to_latest_leave_evt (final_state e vs))
          (new_models_end_sessions (final_state e vs))))) =
   int (card (abandoned_at vs s))"
proof -
  let ?leave = "session_id_to_latest_leave_evt (final_state e vs)"
  let ?ls = "leave_states ?leave (new_models_end_sessions (final_state e vs))"
  let ?P = "\<lambda>sid. snd (latest_leave (leave_events vs sid)) = s"
  have d: "distinct ?ls"
    unfolding leave_states_def using final_leave_distinct [of e vs] by simp
  have set_ls: "set ?ls = leave_sessions vs - completed_sessions vs"
    unfolding leave_states_def using final_leave_keys [of e vs]
    by (auto simp: final_end_sessions)
  have "distinct (filter ?P ?ls)" using d by simp
  then have "card (set (filter ?P ?ls)) = length (filter ?P ?ls)" by (rule distinct_card)
  then have "length (filter ?P ?ls) = card (set (filter ?P ?ls))" by (rule sym)
  also have "set (filter ?P ?ls) = abandoned_at vs s"
    unfolding abandoned_at_def using set_ls by auto
  finally show ?thesis by (simp add: final_leave_lookup)
qed


text \<open>Which keys the buckets hold, and the snapshot as a whole.\<close>

lemma process_value_has_count_mono:
  "has_count (state_hit_counts st) s k \<Longrightarrow>
   has_count (state_hit_counts (process_value e st v)) s k"
  by (cases v) (auto simp add: Let_def event_type_defs has_count_add_count)

lemma process_value_has_count_hit:
  "hit_at s v \<noteq> [] \<Longrightarrow>
   has_count (state_hit_counts (process_value e st v)) s ''total_entry_count''"
  by (cases v) (auto simp add: Let_def event_type_defs has_count_add_count split: if_splits)

lemma final_has_count_state:
  "s \<in> Some ` set (states e) \<Longrightarrow>
   k \<in> {''total_entry_count'', ''first_entry_count'', ''no_answer_count''} \<Longrightarrow>
   has_count (state_hit_counts (final_state e vs)) s k"
proof (induction vs rule: rev_induct)
  case Nil
  then show ?case by (simp add: initial_has_count)
next
  case (snoc v vs)
  then show ?case by (simp add: process_value_has_count_mono)
qed

lemma final_has_count_hit:
  "hits vs s \<noteq> [] \<Longrightarrow>
   has_count (state_hit_counts (final_state e vs)) s ''total_entry_count''"
proof (induction vs rule: rev_induct)
  case Nil
  then show ?case by (simp add: hits_def)
next
  case (snoc v vs)
  show ?case
  proof (cases "hit_at s v = []")
    case True
    with snoc show ?thesis by (simp add: hits_def process_value_has_count_mono)
  next
    case False
    then show ?thesis by (simp add: process_value_has_count_hit)
  qed
qed

lemma final_ssi_keys:
  "s \<in> fst ` set (state_session_ids (final_state e vs)) \<longleftrightarrow>
     s \<in> Some ` set (states e) \<or> hits vs s \<noteq> []"
  using final_ssi_map [of e vs s] map_of_eq_None_iff [of "state_session_ids (final_state e vs)" s]
  by (auto split: if_splits)

lemma final_ssi_lookup:
  "lookup_default {} (state_session_ids (final_state e vs)) s = set (hits vs s)"
  by (simp add: lookup_default_def final_ssi_map)

lemma has_count_count_of:
  "has_count shc s k \<Longrightarrow> \<exists>b. shc s = Some b \<and> b k = Some (count_of shc s k)"
  by (auto simp: has_count_def count_of_def split: option.splits)

lemma legacy_count_no_counter:
  "\<forall>v\<in>set vs. \<not> is_counter v \<Longrightarrow> legacy_count vs s k = 0"
proof -
  have "\<not> is_counter v \<Longrightarrow> legacy_amount s k v = 0" for v by (cases v) simp_all
  then show "\<forall>v\<in>set vs. \<not> is_counter v \<Longrightarrow> legacy_count vs s k = 0"
    by (induction vs) (simp_all add: legacy_count_def)
qed

lemma legacy_start_no_counter:
  "\<forall>v\<in>set vs. \<not> is_counter v \<Longrightarrow>
   legacy_start_count e vs = 0 \<and> legacy_completion_count vs = 0"
proof -
  have "\<not> is_counter v \<Longrightarrow> first_entry_at n v = []" for v n by (cases v) simp_all
  then have "\<forall>v\<in>set vs. \<not> is_counter v \<Longrightarrow> concat (map (first_entry_at n) vs) = []" for n
    by (induction vs) simp_all
  then show "\<forall>v\<in>set vs. \<not> is_counter v \<Longrightarrow>
      legacy_start_count e vs = 0 \<and> legacy_completion_count vs = 0"
    by (simp add: legacy_start_count_def legacy_completion_count_def)
qed

lemma reduce_resolved:
  assumes "str_split (CHR '':'') key = [exp_id, version]"
    and "resolve_exploration svc exp_id version = Some e"
  shows "StatisticsMRJobManager_reduce svc now ms key vs =
     Inr (ms(get_entity_id exp_id version \<mapsto>
       \<lparr>mr_exploration_id = exp_id, mr_version = version,
        mr_num_starts = legacy_start_count e vs + count_events EVENT_TYPE_START_EXPLORATION vs,
        mr_num_completions =
          legacy_completion_count vs + count_events EVENT_TYPE_COMPLETE_EXPLORATION vs,
        mr_state_hit_counts = snapshot_counts e vs, mr_last_updated = now\<rparr>))"
  using assms
  by (simp add: StatisticsMRJobManager_reduce_def create_def Let_def snapshot_counts_def
      final_state_def [symmetric] final_old_start final_old_complete final_start_count
      final_complete_count)

lemma snapshot_count_of:
  "count_of (snapshot_counts e vs) s k =
     legacy_count vs s k
     + (if k = ''total_entry_count'' then int (length (hits vs s)) else 0)
     + (if k = ''first_entry_count'' then int (card (set (hits vs s))) else 0)
     + (if k = ''no_answer_count'' then int (card (abandoned_at vs s)) else 0)"
  unfolding snapshot_counts_def count_of_add_no_answers final_abandoned
  by (simp add: count_of_add_first_entries final_ssi_distinct final_ssi_lookup final_count_of)

lemma snapshot_has_count:
  assumes "s \<in> Some ` set (states e) \<or> hits vs s \<noteq> []"
  shows "has_count (snapshot_counts e vs) s ''total_entry_count''"
    and "has_count (snapshot_counts e vs) s ''first_entry_count''"
proof -
  show "has_count (snapshot_counts e vs) s ''total_entry_count''"
    using assms
    by (auto simp: snapshot_counts_def has_count_add_no_answers has_count_add_first_entries
        final_has_count_state final_has_count_hit)
  show "has_count (snapshot_counts e vs) s ''first_entry_count''"
    using assms
    by (simp add: snapshot_counts_def has_count_add_no_answers has_count_add_first_entries
        final_ssi_keys)
qed


subsection \<open>Evaluating the sample data\<close>

lemmas const_defs = VERSION_ALL_def VERSION_NONE_def OLD_END_DEST_def
  EVENT_TYPE_START_EXPLORATION_def EVENT_TYPE_COMPLETE_EXPLORATION_def
  EVENT_TYPE_MAYBE_LEAVE_EXPLORATION_def EVENT_TYPE_STATE_HIT_def

lemmas reduce_eval =
  StatisticsMRJobManager_reduce_def resolve_exploration_def sample_services_def
  sample_exploration_def initial_state_def create_def get_entity_id_def written_count_def
  count_of_def add_count_def add_first_entries_def add_no_answers_def leave_states_def
  lookup_default_def touch_default_def no_leave_evt_def Let_def const_defs

lemma sample_split: "str_split (CHR '':'') ''e1:all'' = [''e1'', ''all'']"
  by simp

lemma sample_resolve: "resolve_exploration sample_services ''e1'' ''all'' = Some sample_exploration"
  by (simp add: resolve_exploration_def sample_services_def const_defs)

subsection \<open>Starts and completions\<close>

text \<open>
  C1. When the key splits into an exploration id and a version and the
  exploration resolves, the reduce function writes a snapshot under that key
  whose \<open>num_starts\<close> is the legacy start count plus the number of start events
  among the values, and whose \<open>num_completions\<close> is the legacy completion
  count plus the number of complete events. Without counter records among the
  values the two are the numbers of start and of complete events.
\<close>

theorem reduce_num_starts_num_completions:
  assumes "str_split (CHR '':'') key = [exp_id, version]"
    and "resolve_exploration svc exp_id version = Some e"
  shows "\<exists>snap. StatisticsMRJobManager_reduce svc now ms key vals =
             Inr (ms(get_entity_id exp_id version \<mapsto> snap))
      \<and> mr_num_starts snap =
          legacy_start_count e vals + count_events EVENT_TYPE_START_EXPLORATION vals
      \<and> mr_num_completions snap =
          legacy_completion_count vals + count_events EVENT_TYPE_COMPLETE_EXPLORATION vals
      \<and> ((\<forall>v\<in>set vals. \<not> is_counter v) \<longrightarrow>
           mr_num_starts snap = count_events EVENT_TYPE_START_EXPLORATION vals
           \<and> mr_num_completions snap = count_events EVENT_TYPE_COMPLETE_EXPLORATION vals)"
  using reduce_resolved [OF assms, of now ms vals] legacy_start_no_counter [of vals e]
  by auto

theorem reduce_num_starts_num_completions_witness:
  "str_split (CHR '':'') ''e1:all'' = [''e1'', ''all'']
   \<and> resolve_exploration sample_services ''e1'' ''all'' = Some sample_exploration
   \<and> (\<exists>snap. StatisticsMRJobManager_reduce sample_services 0 Map.empty ''e1:all''
                 (sample_counters @ sample_values) = Inr [(''e1'', ''all'') \<mapsto> snap]
         \<and> mr_num_starts snap = 9 \<and> mr_num_completions snap = 5)
   \<and> list_all (\<lambda>v. \<not> is_counter v) sample_values
   \<and> (\<exists>snap. StatisticsMRJobManager_reduce sample_services 0 Map.empty ''e1:all''
                 sample_values = Inr [(''e1'', ''all'') \<mapsto> snap]
         \<and> mr_num_starts snap = 2 \<and> mr_num_completions snap = 1)"
proof -
  have nc: "\<forall>v\<in>set sample_values. \<not> is_counter v"
    by (simp add: sample_values_def)
  have nl: "list_all (\<lambda>v. \<not> is_counter v) sample_values"
    by (simp add: sample_values_def)
  have ev: "count_events EVENT_TYPE_START_EXPLORATION sample_values = 2"
    "count_events EVENT_TYPE_COMPLETE_EXPLORATION sample_values = 1"
    "count_events EVENT_TYPE_START_EXPLORATION (sample_counters @ sample_values) = 2"
    "count_events EVENT_TYPE_COMPLETE_EXPLORATION (sample_counters @ sample_values) = 1"
    "legacy_start_count sample_exploration (sample_counters @ sample_values) = 7"
    "legacy_completion_count (sample_counters @ sample_values) = 4"
    by (simp_all add: count_events_def legacy_start_count_def legacy_completion_count_def
        sample_values_def sample_counters_def sample_exploration_def const_defs)
  show ?thesis
    using reduce_num_starts_num_completions
        [OF sample_split sample_resolve, of 0 Map.empty "sample_counters @ sample_values"]
      reduce_num_starts_num_completions
        [OF sample_split sample_resolve, of 0 Map.empty sample_values]
      nc nl sample_split sample_resolve
    by (auto simp: ev get_entity_id_def)
qed


subsection \<open>Per-state hit counts\<close>

text \<open>
  C2. Without counter records among the values, the bucket of a state in the
  written snapshot has \<open>total_entry_count\<close> equal to the number of state hit
  events for that state and \<open>first_entry_count\<close> equal to the number of distinct
  session ids among them. The two keys are stored in the bucket whenever the
  state belongs to the exploration or has at least one hit; a bucket that was
  never created reads as 0.
\<close>

theorem reduce_state_hit_counts:
  assumes "str_split (CHR '':'') key = [exp_id, version]"
    and "resolve_exploration svc exp_id version = Some e"
    and "\<forall>v\<in>set vals. \<not> is_counter v"
  shows "\<exists>snap. StatisticsMRJobManager_reduce svc now ms key vals =
             Inr (ms(get_entity_id exp_id version \<mapsto> snap))
      \<and> count_of (mr_state_hit_counts snap) s ''total_entry_count'' = int (length (hits vals s))
      \<and> count_of (mr_state_hit_counts snap) s ''first_entry_count'' =
          int (card (set (hits vals s)))
      \<and> (s \<in> Some ` set (states e) \<or> hits vals s \<noteq> [] \<longrightarrow>
           (\<exists>b. mr_state_hit_counts snap s = Some b
              \<and> b ''total_entry_count'' = Some (int (length (hits vals s)))
              \<and> b ''first_entry_count'' = Some (int (card (set (hits vals s))))))"
proof -
  let ?shc = "snapshot_counts e vals"
  have total: "count_of ?shc s ''total_entry_count'' = int (length (hits vals s))"
    and first: "count_of ?shc s ''first_entry_count'' = int (card (set (hits vals s)))"
    using assms(3) by (simp_all add: snapshot_count_of legacy_count_no_counter)
  have stored: "\<exists>b. ?shc s = Some b
      \<and> b ''total_entry_count'' = Some (int (length (hits vals s)))
      \<and> b ''first_entry_count'' = Some (int (card (set (hits vals s))))"
    if "s \<in> Some ` set (states e) \<or> hits vals s \<noteq> []"
    using has_count_count_of [OF snapshot_has_count(1) [OF that]]
      has_count_count_of [OF snapshot_has_count(2) [OF that]] total first
    by auto
  show ?thesis
    using reduce_resolved [OF assms(1,2), of now ms vals] total first stored by auto
qed

theorem reduce_state_hit_counts_witness:
  "str_split (CHR '':'') ''e1:all'' = [''e1'', ''all'']
   \<and> resolve_exploration sample_services ''e1'' ''all'' = Some sample_exploration
   \<and> list_all (\<lambda>v. \<not> is_counter v) sample_values
   \<and> Some ''A'' \<in> Some ` set (states sample_exploration)
   \<and> (\<exists>snap b. StatisticsMRJobManager_reduce sample_services 0 Map.empty ''e1:all''
                 sample_values = Inr [(''e1'', ''all'') \<mapsto> snap]
         \<and> mr_state_hit_counts snap (Some ''A'') = Some b
         \<and> b ''total_entry_count'' = Some 3 \<and> b ''first_entry_count'' = Some 2)"
proof -
  have nc: "\<forall>v\<in>set sample_values. \<not> is_counter v"
    by (simp add: sample_values_def)
  have nl: "list_all (\<lambda>v. \<not> is_counter v) sample_values"
    by (simp add: sample_values_def)
  have st: "Some ''A'' \<in> Some ` set (states sample_exploration)"
    by (simp add: sample_exploration_def)
  have ev: "hits sample_values (Some ''A'') = [''s1'', ''s1'', ''s2'']"
    by (simp add: hits_def sample_values_def const_defs)
  have c: "card (set [''s1'', ''s1'', ''s2'']) = 2" by simp
  show ?thesis
    using reduce_state_hit_counts
        [OF sample_split sample_resolve nc, of 0 Map.empty "Some ''A''"] nc nl st
      sample_split sample_resolve
    by (auto simp: ev c get_entity_id_def)
qed

subsection \<open>Sessions that left without completing\<close>

text \<open>
  C3, amended. The \<open>no_answer_count\<close> of a state in the written snapshot is what
  the counter records fold into it plus the number of sessions that have a
  maybe leave event, have no complete event at all (whatever its timestamp),
  and whose last known position is that state. The last known position of a
  session is its maybe leave event with the latest timestamp, the first such
  event among equals, provided that timestamp is after 0. So a session without
  a complete event adds exactly one to the state of its latest maybe leave
  event, and a session with a complete event adds nothing.
\<close>

theorem reduce_no_answer_count:
  assumes "str_split (CHR '':'') key = [exp_id, version]"
    and "resolve_exploration svc exp_id version = Some e"
  shows "\<exists>snap. StatisticsMRJobManager_reduce svc now ms key vals =
             Inr (ms(get_entity_id exp_id version \<mapsto> snap))
      \<and> count_of (mr_state_hit_counts snap) s ''no_answer_count'' =
          legacy_count vals s ''no_answer_count'' + int (card (abandoned_at vals s))
      \<and> ((\<forall>v\<in>set vals. \<not> is_counter v) \<longrightarrow>
           count_of (mr_state_hit_counts snap) s ''no_answer_count'' =
             int (card (abandoned_at vals s)))"
  using reduce_resolved [OF assms, of now ms vals] snapshot_count_of [of e vals s "''no_answer_count''"]
    legacy_count_no_counter [of vals s "''no_answer_count''"]
  by auto

theorem reduce_no_answer_count_witness:
  "str_split (CHR '':'') ''e1:all'' = [''e1'', ''all'']
   \<and> resolve_exploration sample_services ''e1'' ''all'' = Some sample_exploration
   \<and> list_all (\<lambda>v. \<not> is_counter v) sample_values
   \<and> abandoned_at sample_values (Some ''A'') = {''s1''}
   \<and> (\<exists>snap. StatisticsMRJobManager_reduce sample_services 0 Map.empty ''e1:all''
                 sample_values = Inr [(''e1'', ''all'') \<mapsto> snap]
         \<and> count_of (mr_state_hit_counts snap) (Some ''A'') ''no_answer_count'' = 1)"
proof -
  have nc: "\<forall>v\<in>set sample_values. \<not> is_counter v"
    by (simp add: sample_values_def)
  have nl: "list_all (\<lambda>v. \<not> is_counter v) sample_values"
    by (simp add: sample_values_def)
  have ab: "abandoned_at sample_values (Some ''A'') = {''s1''}"
    by (auto simp: abandoned_at_def leave_sessions_def completed_sessions_def
        latest_leave_def leave_events_def sample_values_def const_defs no_leave_evt_def)
  show ?thesis
    using reduce_no_answer_count
        [OF sample_split sample_resolve, of 0 Map.empty sample_values "Some ''A''"] nc nl ab
      sample_split sample_resolve
    by (auto simp: get_entity_id_def)
qed

text \<open>
  The claim as stated fails for a session whose only complete event is earlier
  than its maybe leave event: it has no later complete event, yet it adds
  nothing to the state it left on.
\<close>

theorem reduce_no_answer_count_counterexample:
  "latest_leave (leave_events completion_then_leave ''s1'') = (10, Some ''A'')
   \<and> \<not> has_later_completion completion_then_leave ''s1'' 10
   \<and> written_count
       (StatisticsMRJobManager_reduce sample_services 0 Map.empty ''e1:all''
          completion_then_leave)
       (''e1'', ''all'') (Some ''A'') ''no_answer_count'' = Some 0"
  by (simp add: reduce_eval latest_leave_def leave_events_def has_later_completion_def
      completion_then_leave_def)

subsection \<open>Legacy counter records\<close>

text \<open>
  C4, amended. Processing a counter record: if its state name is the initial
  state of the resolved exploration, its \<open>first_entry_count\<close> becomes the legacy
  start count; if its state name is \<open>END\<close>, its \<open>first_entry_count\<close> becomes the
  legacy completion count and no bucket changes; every record whose state name
  is not \<open>END\<close>, the one for the initial state included, is folded into the
  bucket of its state: \<open>no_answer_count\<close> grows by \<open>first_entry_count +
  subsequent_entries_count - resolved_answer_count - active_answer_count\<close>,
  \<open>first_entry_count\<close> by \<open>first_entry_count\<close> and \<open>total_entry_count\<close> by
  \<open>first_entry_count + subsequent_entries_count\<close>. Nothing else changes.
\<close>

theorem process_value_counter:
  assumes "st' = process_value e st (Counter x ver s fec sec rac aac)"
  shows "old_models_start_count st' =
           (if s = Some (init_state_name e) then fec else old_models_start_count st)
      \<and> old_models_complete_count st' =
           (if s = Some OLD_END_DEST then fec else old_models_complete_count st)
      \<and> (s = Some OLD_END_DEST \<longrightarrow> state_hit_counts st' = state_hit_counts st)
      \<and> (s \<noteq> Some OLD_END_DEST \<longrightarrow>
           count_of (state_hit_counts st') s ''no_answer_count'' =
             count_of (state_hit_counts st) s ''no_answer_count'' + (fec + sec - rac - aac)
           \<and> count_of (state_hit_counts st') s ''first_entry_count'' =
             count_of (state_hit_counts st) s ''first_entry_count'' + fec
           \<and> count_of (state_hit_counts st') s ''total_entry_count'' =
             count_of (state_hit_counts st) s ''total_entry_count'' + (fec + sec)
           \<and> (\<forall>s'. s' \<noteq> s \<longrightarrow> state_hit_counts st' s' = state_hit_counts st s'))
      \<and> new_models_start_count st' = new_models_start_count st
      \<and> new_models_complete_count st' = new_models_complete_count st
      \<and> new_models_end_sessions st' = new_models_end_sessions st
      \<and> session_id_to_latest_leave_evt st' = session_id_to_latest_leave_evt st
      \<and> state_session_ids st' = state_session_ids st"
  unfolding assms
  by (simp add: Let_def count_of_add_count add_count_other)

theorem process_value_counter_witness:
  "old_models_start_count
     (process_value sample_exploration (initial_state sample_exploration)
        (Counter ''e1'' ''none'' (Some ''B'') 5 1 2 0)) = 0
   \<and> Some ''B'' \<noteq> Some OLD_END_DEST
   \<and> count_of (state_hit_counts
        (process_value sample_exploration (initial_state sample_exploration)
           (Counter ''e1'' ''none'' (Some ''B'') 5 1 2 0))) (Some ''B'') ''no_answer_count'' = 4
   \<and> old_models_complete_count
        (process_value sample_exploration (initial_state sample_exploration)
           (Counter ''e1'' ''none'' (Some ''END'') 4 0 0 0)) = 4
   \<and> state_hit_counts
        (process_value sample_exploration (initial_state sample_exploration)
           (Counter ''e1'' ''none'' (Some ''END'') 4 0 0 0)) =
      state_hit_counts (initial_state sample_exploration)"
  using process_value_counter [OF refl, of sample_exploration "initial_state sample_exploration"
      "''e1''" "''none''" "Some ''B''" 5 1 2 0]
    process_value_counter [OF refl, of sample_exploration "initial_state sample_exploration"
      "''e1''" "''none''" "Some ''END''" 4 0 0 0]
  by (simp add: sample_exploration_def OLD_END_DEST_def initial_state_def count_of_def)

text \<open>
  The claim as stated folds a record only when its state is neither the initial
  state nor \<open>END\<close>. A record for the initial state \<open>A\<close> sets the legacy start
  count and is folded into the bucket of \<open>A\<close> as well.
\<close>

theorem process_value_counter_counterexample:
  "Some ''A'' = Some (init_state_name sample_exploration)
   \<and> old_models_start_count
       (process_value sample_exploration (initial_state sample_exploration)
          (Counter ''e1'' ''none'' (Some ''A'') 7 2 1 1)) = 7
   \<and> count_of (state_hit_counts (initial_state sample_exploration))
       (Some ''A'') ''first_entry_count'' = 0
   \<and> count_of (state_hit_counts
        (process_value sample_exploration (initial_state sample_exploration)
           (Counter ''e1'' ''none'' (Some ''A'') 7 2 1 1))) (Some ''A'') ''first_entry_count'' = 7
   \<and> written_count
       (StatisticsMRJobManager_reduce sample_services 0 Map.empty ''e1:all''
          [Counter ''e1'' ''none'' (Some ''A'') 7 2 1 1])
       (''e1'', ''all'') (Some ''A'') ''first_entry_count'' = Some 7"
  by (simp add: reduce_eval)


subsection \<open>Events without a state name\<close>

text \<open>
  C5, amended. Processing an event whose state name is null never creates or
  changes the bucket of a named state. A start or a complete event changes no
  bucket and no set of session ids, and adds one to the start or to the
  completion total. A state hit event is accounted under the null key: the
  bucket of the null key is created if need be, its \<open>total_entry_count\<close> grows
  by one and the session joins the null key's set of session ids. A maybe
  leave event changes no bucket in this step, and when it is the latest so far
  for its session the null name is retained as the last known position.
\<close>

theorem process_value_null_state_name:
  assumes "st' = process_value e st (Event t sid None c x ver)"
  shows "(\<forall>n. state_hit_counts st' (Some n) = state_hit_counts st (Some n))
      \<and> (t = EVENT_TYPE_START_EXPLORATION \<longrightarrow>
           state_hit_counts st' = state_hit_counts st
           \<and> state_session_ids st' = state_session_ids st
           \<and> new_models_start_count st' = new_models_start_count st + 1)
      \<and> (t = EVENT_TYPE_COMPLETE_EXPLORATION \<longrightarrow>
           state_hit_counts st' = state_hit_counts st
           \<and> state_session_ids st' = state_session_ids st
           \<and> new_models_complete_count st' = new_models_complete_count st + 1)
      \<and> (t = EVENT_TYPE_STATE_HIT \<longrightarrow>
           has_count (state_hit_counts st') None ''total_entry_count''
           \<and> count_of (state_hit_counts st') None ''total_entry_count'' =
               count_of (state_hit_counts st) None ''total_entry_count'' + 1
           \<and> lookup_default {} (state_session_ids st') None =
               insert sid (lookup_default {} (state_session_ids st) None))
      \<and> (t = EVENT_TYPE_MAYBE_LEAVE_EXPLORATION \<longrightarrow>
           state_hit_counts st' = state_hit_counts st
           \<and> (fst (lookup_default no_leave_evt (session_id_to_latest_leave_evt st) sid) < c \<longrightarrow>
                map_of (session_id_to_latest_leave_evt st') sid = Some (c, None)))"
  unfolding assms
  by (simp add: event_type_defs Let_def add_count_other has_count_add_count count_of_add_count
      update_conv' lookup_default_def)

theorem process_value_null_state_name_witness:
  "new_models_start_count
     (process_value sample_exploration (initial_state sample_exploration)
        (Event EVENT_TYPE_START_EXPLORATION ''s1'' None 5 ''e1'' ''all'')) = 1
   \<and> new_models_complete_count
     (process_value sample_exploration (initial_state sample_exploration)
        (Event EVENT_TYPE_COMPLETE_EXPLORATION ''s1'' None 5 ''e1'' ''all'')) = 1
   \<and> count_of (state_hit_counts
        (process_value sample_exploration (initial_state sample_exploration)
           (Event EVENT_TYPE_STATE_HIT ''s1'' None 5 ''e1'' ''all''))) None ''total_entry_count'' = 1
   \<and> fst (lookup_default no_leave_evt
        (session_id_to_latest_leave_evt (initial_state sample_exploration)) ''s1'') < 5
   \<and> map_of (session_id_to_latest_leave_evt
        (process_value sample_exploration (initial_state sample_exploration)
           (Event EVENT_TYPE_MAYBE_LEAVE_EXPLORATION ''s1'' None 5 ''e1'' ''all''))) ''s1'' =
       Some (5, None)"
  using process_value_null_state_name [OF refl, of sample_exploration
      "initial_state sample_exploration" EVENT_TYPE_START_EXPLORATION "''s1''" 5 "''e1''" "''all''"]
    process_value_null_state_name [OF refl, of sample_exploration
      "initial_state sample_exploration" EVENT_TYPE_COMPLETE_EXPLORATION "''s1''" 5 "''e1''" "''all''"]
    process_value_null_state_name [OF refl, of sample_exploration
      "initial_state sample_exploration" EVENT_TYPE_STATE_HIT "''s1''" 5 "''e1''" "''all''"]
    process_value_null_state_name [OF refl, of sample_exploration
      "initial_state sample_exploration" EVENT_TYPE_MAYBE_LEAVE_EXPLORATION "''s1''" 5 "''e1''" "''all''"]
  by (simp add: initial_state_def lookup_default_def no_leave_evt_def count_of_def
      sample_exploration_def)

text \<open>
  The claim as stated lets no bucket be created for an event with a null state
  name. A state hit event with a null state name creates the bucket of the
  null key, and the written snapshot carries it with one entry.
\<close>

theorem process_value_null_state_name_counterexample:
  "\<not> has_count (state_hit_counts (initial_state sample_exploration)) None ''total_entry_count''
   \<and> has_count (state_hit_counts
        (process_value sample_exploration (initial_state sample_exploration)
           (Event ''state_hit'' ''s1'' None 5 ''e1'' ''all''))) None ''total_entry_count''
   \<and> written_count
       (StatisticsMRJobManager_reduce sample_services 0 Map.empty ''e1:all''
          [Event ''state_hit'' ''s1'' None 5 ''e1'' ''all''])
       (''e1'', ''all'') None ''total_entry_count'' = Some 1
   \<and> written_count
       (StatisticsMRJobManager_reduce sample_services 0 Map.empty ''e1:all''
          [Event ''state_hit'' ''s1'' None 5 ''e1'' ''all''])
       (''e1'', ''all'') None ''first_entry_count'' = Some 1"
  by (simp add: reduce_eval has_count_def)

subsection \<open>The map function\<close>

lemma find_char_append:
  "c \<notin> set xs \<Longrightarrow> find_char c (xs @ c # ys) = int (length xs)"
  by (induction xs) (auto simp: Let_def)

text \<open>
  C6. An entity created before the cutoff of the job makes the map function
  yield exactly two pairs with the same value: one under the exploration id
  and the specific version scope (\<open>none\<close> for a null version and for a counter
  record, the decimal version number otherwise) and one under the exploration
  id and \<open>all\<close>. For a counter record the exploration id is the part of its id
  before the first dot and the state name the part after it. An entity created
  at or after the cutoff yields nothing.
\<close>

theorem map_emits_two_keys:
  "(item_created_on entity < job_queued \<longrightarrow>
      (\<exists>e scope val.
          StatisticsMRJobManager_map job_queued entity =
            [(e @ '':'' @ scope, val), (e @ '':'' @ VERSION_ALL, val)]
        \<and> (\<forall>t sid sn c e' ver. entity = EventLogEntryModel t sid sn c e' ver \<longrightarrow>
              e = e'
              \<and> scope = (case ver of None \<Rightarrow> VERSION_NONE | Some n \<Rightarrow> str_int n)
              \<and> val = Event t sid sn c e' scope)
        \<and> (\<forall>i f s r a c. entity = StateCounterModel i f s r a c \<longrightarrow>
              scope = VERSION_NONE
              \<and> e = slice_to i (find_char (CHR ''.'') i)
              \<and> val = Counter e VERSION_NONE
                        (Some (slice_from i (find_char (CHR ''.'') i + 1))) f s r a
              \<and> (\<forall>p n. i = p @ ''.'' @ n \<and> CHR ''.'' \<notin> set p \<longrightarrow>
                    e = p \<and> val = Counter p VERSION_NONE (Some n) f s r a))))
   \<and> (job_queued \<le> item_created_on entity \<longrightarrow>
        StatisticsMRJobManager_map job_queued entity = [])"
proof (cases entity)
  case (StateCounterModel i f s r a c)
  have "slice_to (p @ ''.'' @ n) (find_char (CHR ''.'') (p @ ''.'' @ n)) = p
      \<and> slice_from (p @ ''.'' @ n) (find_char (CHR ''.'') (p @ ''.'' @ n) + 1) = n"
    if "CHR ''.'' \<notin> set p" for p n
  proof -
    have "nat (int (length p) + 1) = Suc (length p)" by simp
    then show ?thesis
      using find_char_append [OF that, of n] by (simp add: slice_to_def slice_from_def)
  qed
  then show ?thesis
    using StateCounterModel
    by (auto simp add: entity_created_before_job_queued_def Let_def)
next
  case (EventLogEntryModel t sid sn c e' ver)
  then show ?thesis
    by (simp add: entity_created_before_job_queued_def Let_def)
qed

theorem map_emits_two_keys_witness:
  "item_created_on (EventLogEntryModel ''start'' ''s1'' (Some ''A'') 5 ''e1'' (Some 3)) < 10
   \<and> StatisticsMRJobManager_map 10 (EventLogEntryModel ''start'' ''s1'' (Some ''A'') 5 ''e1'' (Some 3)) =
       [(''e1:3'', Event ''start'' ''s1'' (Some ''A'') 5 ''e1'' ''3''),
        (''e1:all'', Event ''start'' ''s1'' (Some ''A'') 5 ''e1'' ''3'')]
   \<and> item_created_on (EventLogEntryModel ''start'' ''s1'' (Some ''A'') 5 ''e1'' None) < 10
   \<and> StatisticsMRJobManager_map 10 (EventLogEntryModel ''start'' ''s1'' (Some ''A'') 5 ''e1'' None) =
       [(''e1:none'', Event ''start'' ''s1'' (Some ''A'') 5 ''e1'' ''none''),
        (''e1:all'', Event ''start'' ''s1'' (Some ''A'') 5 ''e1'' ''none'')]
   \<and> item_created_on (StateCounterModel ''e1.A'' 7 2 1 1 5) < 10
   \<and> StatisticsMRJobManager_map 10 (StateCounterModel ''e1.A'' 7 2 1 1 5) =
       [(''e1:none'', Counter ''e1'' ''none'' (Some ''A'') 7 2 1 1),
        (''e1:all'', Counter ''e1'' ''none'' (Some ''A'') 7 2 1 1)]
   \<and> (10::int) \<le> item_created_on (EventLogEntryModel ''start'' ''s1'' (Some ''A'') 10 ''e1'' (Some 3))
   \<and> StatisticsMRJobManager_map 10 (EventLogEntryModel ''start'' ''s1'' (Some ''A'') 10 ''e1'' (Some 3)) = []"
  using map_emits_two_keys [of "EventLogEntryModel ''start'' ''s1'' (Some ''A'') 5 ''e1'' (Some 3)" 10]
    map_emits_two_keys [of "EventLogEntryModel ''start'' ''s1'' (Some ''A'') 5 ''e1'' None" 10]
    map_emits_two_keys [of "StateCounterModel ''e1.A'' 7 2 1 1 5" 10]
    map_emits_two_keys [of "EventLogEntryModel ''start'' ''s1'' (Some ''A'') 10 ''e1'' (Some 3)" 10]
  by (simp add: const_defs str_int_def digit_char_def slice_to_def slice_from_def
      entity_created_before_job_queued_def Let_def)

subsection \<open>Explorations that cannot be resolved\<close>

text \<open>
  C7. When the key splits into an exploration id and a version and resolving
  the exploration ends in the not-found error, the reduce function returns
  normally and leaves the store of snapshots as it was. The lookup of the
  exploration failing is one way for the resolution to fail.
\<close>

theorem reduce_exploration_not_found:
  assumes "str_split (CHR '':'') key = [exp_id, version]"
  shows "(resolve_exploration svc exp_id version = None \<longrightarrow>
            StatisticsMRJobManager_reduce svc now ms key vals = Inr ms)
      \<and> (get_exploration_by_id svc exp_id
            (if version = VERSION_NONE \<or> version = VERSION_ALL then None else Some version) = None
          \<longrightarrow> resolve_exploration svc exp_id version = None)"
  using assms
  by (simp add: StatisticsMRJobManager_reduce_def resolve_exploration_def)

theorem reduce_exploration_not_found_witness:
  "str_split (CHR '':'') ''e2:all'' = [''e2'', ''all'']
   \<and> resolve_exploration sample_services ''e2'' ''all'' = None
   \<and> StatisticsMRJobManager_reduce sample_services 0
        [(''e1'', ''all'') \<mapsto> \<lparr>mr_exploration_id = ''e1'', mr_version = ''all'', mr_num_starts = 2,
            mr_num_completions = 0, mr_state_hit_counts = Map.empty, mr_last_updated = 7\<rparr>]
        ''e2:all'' sample_values =
       Inr [(''e1'', ''all'') \<mapsto> \<lparr>mr_exploration_id = ''e1'', mr_version = ''all'', mr_num_starts = 2,
            mr_num_completions = 0, mr_state_hit_counts = Map.empty, mr_last_updated = 7\<rparr>]
   \<and> str_split (CHR '':'') ''e1:none'' = [''e1'', ''none'']
   \<and> resolve_exploration sample_recent_services ''e1'' ''none'' = None
   \<and> StatisticsMRJobManager_reduce sample_recent_services 0 Map.empty ''e1:none'' sample_values =
       Inr Map.empty"
proof -
  have s1: "str_split (CHR '':'') ''e2:all'' = [''e2'', ''all'']" by simp
  have s2: "str_split (CHR '':'') ''e1:none'' = [''e1'', ''none'']" by simp
  have r1: "resolve_exploration sample_services ''e2'' ''all'' = None"
    by (simp add: resolve_exploration_def sample_services_def const_defs)
  have r2: "resolve_exploration sample_recent_services ''e1'' ''none'' = None"
    by (simp add: resolve_exploration_def sample_recent_services_def sample_exploration_def
        const_defs STATE_COUNTER_CUTOFF_DATE_def)
  show ?thesis
    using reduce_exploration_not_found [OF s1, of sample_services 0
        "[(''e1'', ''all'') \<mapsto> \<lparr>mr_exploration_id = ''e1'', mr_version = ''all'',
            mr_num_starts = 2, mr_num_completions = 0, mr_state_hit_counts = Map.empty,
            mr_last_updated = 7\<rparr>]" sample_values]
      reduce_exploration_not_found [OF s2, of sample_recent_services 0 Map.empty sample_values]
      s1 s2 r1 r2
    by simp
qed

subsection \<open>The reduce function of the answer summaries job\<close>

lemma run_calculations_all:
  "\<forall>c\<in>set calcs. c d \<noteq> None \<Longrightarrow>
   run_calculations calcs d saved = (saved @ map (\<lambda>c. the (c d)) calcs, None)"
  by (induction calcs arbitrary: saved) auto

text \<open>
  C10. For a key of three parts and a non-empty list of answer dictionaries,
  the combined dictionary holds the concatenation of all submitted answer
  lists, so its length is the sum of their lengths, and the interaction id of
  the first dictionary. The calculations run are those registered for that
  interaction id, on the combined dictionary; when all of them succeed their
  outputs are saved in order. Changing the interaction ids of the later
  dictionaries changes nothing.
\<close>

theorem answer_summaries_reduce_combined:
  assumes "str_split (CHR '':'') key = [e, v, s]"
    and "combined = combined_state_answers e v s (interaction_id d) (d # ds)"
  shows "submitted_answer_list combined = concat (map submitted_answer_list (d # ds))
      \<and> length (submitted_answer_list combined) =
          sum_list (map (\<lambda>x. length (submitted_answer_list x)) (d # ds))
      \<and> interaction_id combined = interaction_id d
      \<and> InteractionAnswerSummariesMRJobManager_reduce reg saved key (d # ds) =
          (case get_interaction_by_id reg (interaction_id d) of
             None \<Rightarrow> (saved, Some RegistryError)
           | Some calc_ids \<Rightarrow>
               (case those (map (get_calculation_by_id reg) calc_ids) of
                  None \<Rightarrow> (saved, Some RegistryError)
                | Some calcs \<Rightarrow> run_calculations calcs combined saved))
      \<and> (\<forall>calc_ids calcs.
            get_interaction_by_id reg (interaction_id d) = Some calc_ids
            \<and> those (map (get_calculation_by_id reg) calc_ids) = Some calcs
            \<and> (\<forall>c\<in>set calcs. c combined \<noteq> None) \<longrightarrow>
            InteractionAnswerSummariesMRJobManager_reduce reg saved key (d # ds) =
              (saved @ map (\<lambda>c. the (c combined)) calcs, None))
      \<and> (\<forall>f. InteractionAnswerSummariesMRJobManager_reduce reg saved key
                (d # map (\<lambda>x. x\<lparr>interaction_id := f x\<rparr>) ds) =
              InteractionAnswerSummariesMRJobManager_reduce reg saved key (d # ds))"
proof -
  have len: "length (concat (map submitted_answer_list xs)) =
      sum_list (map (\<lambda>x. length (submitted_answer_list x)) xs)"
    for xs :: "'a state_answers_dict list"
    by (induction xs) simp_all
  have red: "InteractionAnswerSummariesMRJobManager_reduce reg saved key (d # ds) =
      (case get_interaction_by_id reg (interaction_id d) of
         None \<Rightarrow> (saved, Some RegistryError)
       | Some calc_ids \<Rightarrow>
           (case those (map (get_calculation_by_id reg) calc_ids) of
              None \<Rightarrow> (saved, Some RegistryError)
            | Some calcs \<Rightarrow> run_calculations calcs combined saved))"
    unfolding assms(2) using assms(1)
    by (simp add: InteractionAnswerSummariesMRJobManager_reduce_def Let_def)
  have same: "combined_state_answers e v s (interaction_id d)
        (d # map (\<lambda>x. x\<lparr>interaction_id := f x\<rparr>) ds) = combined" for f
    unfolding assms(2) by (simp add: combined_state_answers_def comp_def)
  have indep: "InteractionAnswerSummariesMRJobManager_reduce reg saved key
        (d # map (\<lambda>x. x\<lparr>interaction_id := f x\<rparr>) ds) =
      InteractionAnswerSummariesMRJobManager_reduce reg saved key (d # ds)" for f
    unfolding red
    using assms(1)
    by (simp add: InteractionAnswerSummariesMRJobManager_reduce_def Let_def same
        cong: option.case_cong)
  have fields: "submitted_answer_list combined = concat (map submitted_answer_list (d # ds))"
    "interaction_id combined = interaction_id d"
    unfolding assms(2) by (simp_all add: combined_state_answers_def)
  show ?thesis
    using red indep fields len [of "d # ds"]
    by (auto simp: run_calculations_all)
qed

theorem answer_summaries_reduce_combined_witness:
  "str_split (CHR '':'') ''e1:all:A'' = [''e1'', ''all'', ''A'']
   \<and> submitted_answer_list
        (combined_state_answers ''e1'' ''all'' ''A'' ''TextInput'' sample_answers) =
       [''a'', ''b'', ''c'']
   \<and> InteractionAnswerSummariesMRJobManager_reduce sample_registries [] ''e1:all:A''
        sample_answers = ([3], None)"
proof -
  have sp: "str_split (CHR '':'') ''e1:all:A'' = [''e1'', ''all'', ''A'']" by simp
  show ?thesis
    using answer_summaries_reduce_combined [OF sp refl, of
        "\<lparr>exploration_id = ''e1'', exploration_version = ''1'', state_name = ''A'',
          interaction_id = ''TextInput'', submitted_answer_list = [''a'', ''b'']\<rparr>"
        "[\<lparr>exploration_id = ''e1'', exploration_version = ''2'', state_name = ''A'',
           interaction_id = ''Continue'', submitted_answer_list = [''c'']\<rparr>]"
        sample_registries "[]"] sp
    by (simp add: sample_answers_def sample_registries_def combined_state_answers_def)
qed


end
